theory Spec2Isabelle
  imports Complex_Main
begin

section \<open>Tensors, parameters and modules\<close>

text \<open>
  The engine of \<^verbatim>\<open>nngeometry/ispace/l2loss.py\<close> works on PyTorch tensors. Floating-point
  numbers are idealised as exact reals; a one-dimensional tensor is a list, a two-dimensional
  tensor a list of rows. A tensor of more dimensions is only ever asked for its first
  dimension by this code, and is represented by its rows along that dimension.
\<close>

type_synonym vec = "real list"
type_synonym matrix = "real list list"

datatype error =
  AssertionError | NotImplementedError | RuntimeError | AttributeError | KeyError | StopIteration

text \<open>A parameter tensor: its identity, its shape (\<^verbatim>\<open>p.size()\<close>) and \<^verbatim>\<open>p.requires_grad\<close>.\<close>

record param =
  pid :: nat
  shape :: "nat list"
  requires_grad :: bool

definition numel :: "param \<Rightarrow> nat" where
  "numel p = prod_list (shape p)"

text \<open>
  A module of the model: its identity, \<^verbatim>\<open>mod.__class__.__name__\<close>, the attributes
  \<^verbatim>\<open>mod.weight\<close> and \<^verbatim>\<open>mod.bias\<close> (None when absent), and the parameters the module
  owns directly, in registration order (what \<^verbatim>\<open>mod.parameters(recurse=False)\<close> yields).
\<close>

record module =
  mid :: nat
  mod_class :: string
  weight :: "param option"
  bias :: "param option"
  own_params :: "param list"

text \<open>
  \<^verbatim>\<open>model.parameters()\<close>: the modules in traversal order, each module's own parameters in
  order, a parameter object reached twice yielded once (the first time).
\<close>

fun dedup :: "nat list \<Rightarrow> param list \<Rightarrow> param list" where
  "dedup seen [] = []"
| "dedup seen (p # ps) =
     (if pid p \<in> set seen then dedup seen ps else p # dedup (pid p # seen) ps)"

definition model_parameters :: "module list \<Rightarrow> param list" where
  "model_parameters ms = dedup [] (concat (map own_params ms))"

section \<open>Construction: \<^verbatim>\<open>_get_individual_modules\<close>\<close>

definition supported :: "module \<Rightarrow> bool" where
  "supported m = (mod_class m \<in> set [''Linear'', ''Conv2d''])"

text \<open>
  The loop over \<^verbatim>\<open>model.modules()\<close>. The loop state is
  \<^verbatim>\<open>(mods, p_pos, sizes_mods, parameters, start)\<close>; \<^verbatim>\<open>mod.weight.size()\<close> on a missing
  weight raises AttributeError.
\<close>

type_synonym gim_state = "module list \<times> (nat \<rightharpoonup> nat) \<times> nat list list \<times> param list \<times> nat"

fun gim_loop :: "module list \<Rightarrow> gim_state \<Rightarrow> error + gim_state" where
  "gim_loop [] st = Inr st"
| "gim_loop (m # ms) (mods, pp, sizes_mods, parameters, start) =
     (if supported m then
        (case weight m of
           None \<Rightarrow> Inl AttributeError
         | Some w \<Rightarrow>
             (case bias m of
                None \<Rightarrow>
                  gim_loop ms (mods @ [m], pp(mid m \<mapsto> start), sizes_mods @ [shape w],
                    parameters @ [w], start + numel w)
              | Some b \<Rightarrow>
                  gim_loop ms (mods @ [m], pp(mid m \<mapsto> start), sizes_mods @ [shape w, shape b],
                    parameters @ [w, b], start + numel w + numel b)))
      else gim_loop ms (mods, pp, sizes_mods, parameters, start))"

definition get_individual_modules ::
  "module list \<Rightarrow> (nat \<rightharpoonup> nat) \<Rightarrow> error + (module list \<times> (nat \<rightharpoonup> nat))" where
  "get_individual_modules model_modules pp0 =
     (case gim_loop model_modules ([], pp0, [], [], 0) of
        Inl e \<Rightarrow> Inl e
      | Inr (mods, pp, sizes_mods, parameters, start) \<Rightarrow>
          (let sizes_flat = map shape (filter requires_grad (model_parameters model_modules)) in
           if sizes_mods \<noteq> sizes_flat then Inl AssertionError
           else if length (filter (\<lambda>p. pid p \<notin> set (map pid (model_parameters model_modules)))
                     (dedup [] parameters)) \<noteq> 0
           then Inl AssertionError
           else Inr (mods, pp)))"


section \<open>Tensor operations\<close>

text \<open>\<^verbatim>\<open>xs[a:b]\<close> for \<^verbatim>\<open>0 <= a\<close>: clipped to the list, as Python and PyTorch slicing is.\<close>

definition slice :: "nat \<Rightarrow> nat \<Rightarrow> 'a list \<Rightarrow> 'a list" where
  "slice a b xs = take (b - a) (drop a xs)"

definition ncols :: "matrix \<Rightarrow> nat" where
  "ncols M = (case M of [] \<Rightarrow> 0 | r # _ \<Rightarrow> length r)"

definition zeros :: "nat \<Rightarrow> nat \<Rightarrow> matrix" where
  "zeros r c = replicate r (replicate c 0)"

definition dot :: "vec \<Rightarrow> vec \<Rightarrow> real" where
  "dot u v = sum_list (map2 (*) u v)"

text \<open>\<^verbatim>\<open>torch.mm(A, B)\<close>: the inner dimensions must agree. \<^verbatim>\<open>M.t()\<close> is \<^const>\<open>transpose\<close>.\<close>

definition mm :: "matrix \<Rightarrow> matrix \<Rightarrow> error + matrix" where
  "mm A B =
     (if list_all (\<lambda>r. length r = length B) A
      then Inr (map (\<lambda>r. map (dot r) (transpose B)) A)
      else Inl RuntimeError)"

text \<open>\<^verbatim>\<open>torch.mv(M, v)\<close>.\<close>

definition mv :: "matrix \<Rightarrow> vec \<Rightarrow> error + vec" where
  "mv M v =
     (if list_all (\<lambda>r. length r = length v) M then Inr (map (\<lambda>r. dot r v) M)
      else Inl RuntimeError)"

text \<open>
  Broadcasting: two dimensions are compatible when they are equal or one of them is 1;
  the dimension of size 1 is repeated.
\<close>

definition bdim :: "nat \<Rightarrow> nat \<Rightarrow> nat option" where
  "bdim a b = (if a = b then Some a else if a = 1 then Some b else if b = 1 then Some a else None)"

definition expand :: "nat \<Rightarrow> 'a list \<Rightarrow> 'a list" where
  "expand n xs = (if length xs = n then xs else replicate n (hd xs))"

text \<open>\<^verbatim>\<open>A * B\<close> on two-dimensional tensors.\<close>

definition mul_bc :: "matrix \<Rightarrow> matrix \<Rightarrow> error + matrix" where
  "mul_bc A B =
     (case bdim (length A) (length B) of
        None \<Rightarrow> Inl RuntimeError
      | Some r \<Rightarrow>
          (case bdim (ncols A) (ncols B) of
             None \<Rightarrow> Inl RuntimeError
           | Some c \<Rightarrow>
               Inr (map2 (\<lambda>a b. map2 (*) (expand c a) (expand c b)) (expand r A) (expand r B))))"

text \<open>\<^verbatim>\<open>c.view(-1, 1)\<close> and \<^verbatim>\<open>M.view(-1)\<close>.\<close>

definition view_col :: "vec \<Rightarrow> matrix" where
  "view_col c = map (\<lambda>a. [a]) c"

definition view_flat :: "matrix \<Rightarrow> vec" where
  "view_flat M = concat M"

text \<open>
  \<^verbatim>\<open>out[a:b] += v\<close> on a one-dimensional tensor: the operand is broadcast to the (clipped)
  slice, which fails unless its length is that of the slice or 1.
\<close>

definition add_at :: "nat \<Rightarrow> vec \<Rightarrow> vec \<Rightarrow> vec" where
  "add_at a v row = take a row @ map2 (+) (slice a (a + length v) row) v @ drop (a + length v) row"

definition slice_iadd :: "nat \<Rightarrow> nat \<Rightarrow> vec \<Rightarrow> vec \<Rightarrow> error + vec" where
  "slice_iadd a b v out =
     (let n = length (slice a b out) in
      if length v = n \<or> length v = 1 then Inr (add_at a (expand n v) out)
      else Inl RuntimeError)"

text \<open>
  \<^verbatim>\<open>G[a:b, c:d]\<close>, and \<^verbatim>\<open>G[a:b, c:d] += M\<close> on a two-dimensional tensor: the operand is
  broadcast to the shape of the (clipped) block.
\<close>

definition block :: "nat \<Rightarrow> nat \<Rightarrow> nat \<Rightarrow> nat \<Rightarrow> matrix \<Rightarrow> matrix" where
  "block a b c d G = map (slice c d) (slice a b G)"

definition block_iadd :: "nat \<Rightarrow> nat \<Rightarrow> nat \<Rightarrow> nat \<Rightarrow> matrix \<Rightarrow> matrix \<Rightarrow> error + matrix" where
  "block_iadd a b c d M G =
     (let nr = length (slice a b G); nc = length (slice c d (case G of [] \<Rightarrow> [] | r # _ \<Rightarrow> r)) in
      if (length M = nr \<or> length M = 1) \<and> (ncols M = nc \<or> ncols M = 1)
      then Inr (take a G @ map2 (\<lambda>m row. add_at c (expand nc m) row) (expand nr M) (slice a b G)
                  @ drop (a + nr) G)
      else Inl RuntimeError)"

section \<open>The generator and its collaborators\<close>

text \<open>
  A batch of the data loader. The loss closure and \<^verbatim>\<open>torch.autograd.grad\<close> are external:
  what the engine sees of them is, for each module, the input activation handed to its
  forward-pre hook and the output gradient handed to its backward hook. A batch carries both,
  keyed by module identity, with \<^verbatim>\<open>inputs.size(0)\<close> and \<^verbatim>\<open>targets.size(0)\<close>.
\<close>

record batch =
  inputs_size :: nat
  targets_size :: nat
  act :: "nat \<Rightarrow> matrix"
  grad_out :: "nat \<Rightarrow> matrix"

text \<open>
  The data loader: the batches one traversal yields (every traversal yields the same),
  \<^verbatim>\<open>dataloader.batch_size\<close> and \<^verbatim>\<open>len(dataloader.sampler)\<close>.
\<close>

record loader =
  batches :: "batch list"
  batch_size :: nat
  n_sampler :: nat

text \<open>The bound methods registered as hooks.\<close>

datatype fhook = Hook_savex_io | Hook_savex

datatype bhook = Hook_compute_flat_grad | Hook_compute_m_norm

text \<open>
  The \<^verbatim>\<open>L2Loss\<close> object. Dictionaries keyed by module are maps from the module's identity.
  Attributes that the code creates and deletes (\<^verbatim>\<open>G\<close>, \<^verbatim>\<open>e_outer\<close>, \<^verbatim>\<open>e_inner\<close>,
  \<^verbatim>\<open>_cTv\<close>, \<^verbatim>\<open>_c\<close>, \<^verbatim>\<open>outerloop_switch\<close>) are optional: reading one that is unset raises
  AttributeError. The hook tables of the model's modules are kept in the same record: an entry
  is a handle identity, the identity of the module and the hook; \<open>next_handle\<close> is the
  identity the next registration gets. \<open>loss_calls\<close> counts the evaluations of the loss closure.
\<close>

record l2loss =
  model :: "module list"
  dataloader :: loader
  handles :: "nat list"
  x_outer :: "nat \<rightharpoonup> matrix"
  x_inner :: "nat \<rightharpoonup> matrix"
  xs_buf :: "nat \<rightharpoonup> matrix"
  gy_outer :: "nat \<rightharpoonup> matrix"
  p_pos :: "nat \<rightharpoonup> nat"
  mods :: "module list"
  outerloop_switch :: "bool option"
  G_buf :: "matrix option"
  e_outer :: "nat option"
  e_inner :: "nat option"
  cTv :: "vec option"
  c_buf :: "vec option"
  fwd_pre_hooks :: "(nat \<times> nat \<times> fhook) list"
  bwd_hooks :: "(nat \<times> nat \<times> bhook) list"
  next_handle :: nat
  loss_calls :: nat

text \<open>The outcome of a method: what it returned or raised, and the object afterwards.\<close>

type_synonym 'a outcome = "(error + 'a) \<times> l2loss"

definition L2Loss_init :: "module list \<Rightarrow> loader \<Rightarrow> error + l2loss" where
  "L2Loss_init model_modules dl =
     (case get_individual_modules model_modules Map.empty of
        Inl e \<Rightarrow> Inl e
      | Inr (ms, pp) \<Rightarrow>
          Inr \<lparr>model = model_modules, dataloader = dl, handles = [],
               x_outer = Map.empty, x_inner = Map.empty, xs_buf = Map.empty,
               gy_outer = Map.empty, p_pos = pp, mods = ms, outerloop_switch = None,
               G_buf = None, e_outer = None, e_inner = None, cTv = None, c_buf = None,
               fwd_pre_hooks = [], bwd_hooks = [], next_handle = 0, loss_calls = 0\<rparr>)"

definition release_buffers :: "l2loss \<Rightarrow> l2loss" where
  "release_buffers s =
     s\<lparr>x_outer := Map.empty, x_inner := Map.empty, xs_buf := Map.empty, gy_outer := Map.empty\<rparr>"


section \<open>Hook registration\<close>

text \<open>
  \<^verbatim>\<open>_add_hooks\<close>: for every retained module, a forward-pre hook and then a backward hook;
  the handles are returned in that order.
\<close>

fun add_hooks :: "fhook \<Rightarrow> bhook \<Rightarrow> module list \<Rightarrow> l2loss \<Rightarrow> nat list \<times> l2loss" where
  "add_hooks hook_x hook_gy [] s = ([], s)"
| "add_hooks hook_x hook_gy (m # ms) s =
     (let h1 = next_handle s;
          h2 = Suc h1;
          s1 = s\<lparr>fwd_pre_hooks := fwd_pre_hooks s @ [(h1, mid m, hook_x)],
                 bwd_hooks := bwd_hooks s @ [(h2, mid m, hook_gy)],
                 next_handle := Suc h2\<rparr>;
          r = add_hooks hook_x hook_gy ms s1
      in (h1 # h2 # fst r, snd r))"

text \<open>\<^verbatim>\<open>h.remove()\<close>: the entry leaves the table it is in; removing twice is harmless.\<close>

definition remove_handle :: "nat \<Rightarrow> l2loss \<Rightarrow> l2loss" where
  "remove_handle h s =
     s\<lparr>fwd_pre_hooks := filter (\<lambda>e. fst e \<noteq> h) (fwd_pre_hooks s),
       bwd_hooks := filter (\<lambda>e. fst e \<noteq> h) (bwd_hooks s)\<rparr>"

definition remove_handles :: "nat list \<Rightarrow> l2loss \<Rightarrow> l2loss" where
  "remove_handles hs s = fold remove_handle hs s"

section \<open>The hooks\<close>

definition hook_savex_io :: "module \<Rightarrow> matrix \<Rightarrow> l2loss \<Rightarrow> unit outcome" where
  "hook_savex_io m i0 s =
     (case outerloop_switch s of
        None \<Rightarrow> (Inl AttributeError, s)
      | Some sw \<Rightarrow>
          if sw then (Inr (), s\<lparr>x_outer := (x_outer s)(mid m \<mapsto> i0)\<rparr>)
          else (Inr (), s\<lparr>x_inner := (x_inner s)(mid m \<mapsto> i0)\<rparr>))"

definition hook_savex :: "module \<Rightarrow> matrix \<Rightarrow> l2loss \<Rightarrow> unit outcome" where
  "hook_savex m i0 s = (Inr (), s\<lparr>xs_buf := (xs_buf s)(mid m \<mapsto> i0)\<rparr>)"

text \<open>
  \<^verbatim>\<open>self.G[e_inner:e_inner+bs_inner, e_outer:e_outer+bs_outer] += M\<close>, the operand given as
  a computation that may itself raise; the target and its bounds are evaluated first.
\<close>

definition G_iadd :: "nat \<Rightarrow> nat \<Rightarrow> (error + matrix) \<Rightarrow> l2loss \<Rightarrow> unit outcome" where
  "G_iadd bs_inner bs_outer operand s =
     (case G_buf s of
        None \<Rightarrow> (Inl AttributeError, s)
      | Some G \<Rightarrow>
          (case e_inner s of
             None \<Rightarrow> (Inl AttributeError, s)
           | Some ei \<Rightarrow>
               (case e_outer s of
                  None \<Rightarrow> (Inl AttributeError, s)
                | Some eo \<Rightarrow>
                    (case operand of
                       Inl e \<Rightarrow> (Inl e, s)
                     | Inr M \<Rightarrow>
                         (case block_iadd ei (ei + bs_inner) eo (eo + bs_outer) M G of
                            Inl e \<Rightarrow> (Inl e, s)
                          | Inr G' \<Rightarrow> (Inr (), s\<lparr>G_buf := Some G'\<rparr>))))))"

definition gram_weight_term :: "matrix \<Rightarrow> matrix \<Rightarrow> matrix \<Rightarrow> matrix \<Rightarrow> error + matrix" where
  "gram_weight_term x_in x_out gy_in gy_out =
     (case mm x_in (transpose x_out) of
        Inl e \<Rightarrow> Inl e
      | Inr xx \<Rightarrow>
          (case mm gy_in (transpose gy_out) of
             Inl e \<Rightarrow> Inl e
           | Inr gg \<Rightarrow> mul_bc xx gg))"

definition hook_compute_flat_grad :: "module \<Rightarrow> matrix \<Rightarrow> l2loss \<Rightarrow> unit outcome" where
  "hook_compute_flat_grad m grad_output0 s =
     (case outerloop_switch s of
        None \<Rightarrow> (Inl AttributeError, s)
      | Some sw \<Rightarrow>
          if sw then (Inr (), s\<lparr>gy_outer := (gy_outer s)(mid m \<mapsto> grad_output0)\<rparr>)
          else
            (case gy_outer s (mid m) of
               None \<Rightarrow> (Inl KeyError, s)
             | Some gy_out \<Rightarrow>
                 (case x_outer s (mid m) of
                    None \<Rightarrow> (Inl KeyError, s)
                  | Some x_out \<Rightarrow>
                      (case x_inner s (mid m) of
                         None \<Rightarrow> (Inl KeyError, s)
                       | Some x_in \<Rightarrow>
                           (case p_pos s (mid m) of
                              None \<Rightarrow> (Inl KeyError, s)
                            | Some start \<Rightarrow>
                                if mod_class m = ''Linear'' then
                                  (case G_iadd (length x_in) (length x_out)
                                          (gram_weight_term x_in x_out grad_output0 gy_out) s of
                                     (Inl e, s1) \<Rightarrow> (Inl e, s1)
                                   | (Inr u, s1) \<Rightarrow>
                                       if bias m \<noteq> None then
                                         G_iadd (length x_in) (length x_out)
                                           (mm grad_output0 (transpose gy_out)) s1
                                       else (Inr (), s1))
                                else (Inl NotImplementedError, s))))))"

text \<open>\<^verbatim>\<open>self._cTv[a:b] += v\<close>, the bounds and the operand given as computations.\<close>

definition cTv_iadd :: "(error + nat \<times> nat) \<Rightarrow> (error + vec) \<Rightarrow> l2loss \<Rightarrow> unit outcome" where
  "cTv_iadd bounds operand s =
     (case cTv s of
        None \<Rightarrow> (Inl AttributeError, s)
      | Some out \<Rightarrow>
          (case bounds of
             Inl e \<Rightarrow> (Inl e, s)
           | Inr (a, b) \<Rightarrow>
               (case operand of
                  Inl e \<Rightarrow> (Inl e, s)
                | Inr v \<Rightarrow>
                    (case slice_iadd a b v out of
                       Inl e \<Rightarrow> (Inl e, s)
                     | Inr out' \<Rightarrow> (Inr (), s\<lparr>cTv := Some out'\<rparr>)))))"

definition m_norm_weight_term :: "matrix \<Rightarrow> vec option \<Rightarrow> matrix \<Rightarrow> error + vec" where
  "m_norm_weight_term gy c x =
     (case c of
        None \<Rightarrow> Inl AttributeError
      | Some cv \<Rightarrow>
          (case mul_bc (view_col cv) x of
             Inl e \<Rightarrow> Inl e
           | Inr cx \<Rightarrow>
               (case mm (transpose gy) cx of
                  Inl e \<Rightarrow> Inl e
                | Inr M \<Rightarrow> Inr (view_flat M))))"

definition m_norm_bias_term :: "matrix \<Rightarrow> vec option \<Rightarrow> error + vec" where
  "m_norm_bias_term gy c =
     (case c of None \<Rightarrow> Inl AttributeError | Some cv \<Rightarrow> mv (transpose gy) cv)"

definition hook_compute_m_norm :: "module \<Rightarrow> matrix \<Rightarrow> l2loss \<Rightarrow> unit outcome" where
  "hook_compute_m_norm m grad_output0 s =
     (case xs_buf s (mid m) of
        None \<Rightarrow> (Inl KeyError, s)
      | Some x \<Rightarrow>
          (case p_pos s (mid m) of
             None \<Rightarrow> (Inl KeyError, s)
           | Some start \<Rightarrow>
               if mod_class m = ''Linear'' then
                 (case cTv_iadd
                         (case weight m of
                            None \<Rightarrow> Inl AttributeError
                          | Some w \<Rightarrow> Inr (start, start + numel w))
                         (m_norm_weight_term grad_output0 (c_buf s) x) s of
                    (Inl e, s1) \<Rightarrow> (Inl e, s1)
                  | (Inr u, s1) \<Rightarrow>
                      (case bias m of
                         None \<Rightarrow> (Inr (), s1)
                       | Some b \<Rightarrow>
                           cTv_iadd
                             (case weight m of
                                None \<Rightarrow> Inl AttributeError
                              | Some w \<Rightarrow> Inr (start + numel w, start + numel w + numel b))
                             (m_norm_bias_term grad_output0 (c_buf s1)) s1))
               else (Inl NotImplementedError, s)))"

section \<open>One evaluation of the loss closure with its backward pass\<close>

text \<open>
  \<^verbatim>\<open>loss = self.loss_closure(inputs, targets); torch.autograd.grad(loss, [inputs])\<close>.
  The forward pass runs the modules in traversal order, each once, calling the forward-pre
  hooks registered on the module with the module's input; the backward pass visits the
  modules in the reverse order, calling the backward hooks registered on the module with
  its output gradient. A hook that raises ends the pass.
\<close>

definition call_fhook :: "fhook \<Rightarrow> module \<Rightarrow> matrix \<Rightarrow> l2loss \<Rightarrow> unit outcome" where
  "call_fhook h m i0 s =
     (case h of Hook_savex_io \<Rightarrow> hook_savex_io m i0 s | Hook_savex \<Rightarrow> hook_savex m i0 s)"

definition call_bhook :: "bhook \<Rightarrow> module \<Rightarrow> matrix \<Rightarrow> l2loss \<Rightarrow> unit outcome" where
  "call_bhook h m g0 s =
     (case h of
        Hook_compute_flat_grad \<Rightarrow> hook_compute_flat_grad m g0 s
      | Hook_compute_m_norm \<Rightarrow> hook_compute_m_norm m g0 s)"

fun for_each :: "('a \<Rightarrow> l2loss \<Rightarrow> unit outcome) \<Rightarrow> 'a list \<Rightarrow> l2loss \<Rightarrow> unit outcome" where
  "for_each f [] s = (Inr (), s)"
| "for_each f (x # xs) s =
     (case f x s of
        (Inl e, s1) \<Rightarrow> (Inl e, s1)
      | (Inr u, s1) \<Rightarrow> for_each f xs s1)"

definition hooks_on :: "(nat \<times> nat \<times> 'h) list \<Rightarrow> module \<Rightarrow> 'h list" where
  "hooks_on table m = map (\<lambda>e. snd (snd e)) (filter (\<lambda>e. fst (snd e) = mid m) table)"

definition forward_module :: "batch \<Rightarrow> module \<Rightarrow> l2loss \<Rightarrow> unit outcome" where
  "forward_module b m s =
     for_each (\<lambda>h. call_fhook h m (act b (mid m))) (hooks_on (fwd_pre_hooks s) m) s"

definition backward_module :: "batch \<Rightarrow> module \<Rightarrow> l2loss \<Rightarrow> unit outcome" where
  "backward_module b m s =
     for_each (\<lambda>h. call_bhook h m (grad_out b (mid m))) (hooks_on (bwd_hooks s) m) s"

definition run_pass :: "batch \<Rightarrow> l2loss \<Rightarrow> unit outcome" where
  "run_pass b s =
     (let s0 = s\<lparr>loss_calls := Suc (loss_calls s)\<rparr> in
      case for_each (forward_module b) (model s0) s0 of
        (Inl e, s1) \<Rightarrow> (Inl e, s1)
      | (Inr u, s1) \<Rightarrow> for_each (backward_module b) (rev (model s1)) s1)"


section \<open>\<^verbatim>\<open>get_matrix\<close>\<close>

text \<open>
  The symmetry copy of the inner loop:
  \<^verbatim>\<open>G[e_outer:e_outer+bs_outer, e_inner:e_inner+bs_inner] +=
        G[e_inner:e_inner+bs_inner, e_outer:e_outer+bs_outer].t()\<close>.
  Target and operand are views of the same tensor, and the addition is done in place: the
  elements of the target are visited in row-major order, and each addition reads the operand's
  element as the tensor holds it at that moment. The operand is the transposed source block,
  broadcast to the target where one of its dimensions is 1; \<open>copy_cells\<close> lists, for each
  element of the target, its position and the position of the element added to it.
\<close>

definition copy_cells ::
  "nat \<Rightarrow> nat \<Rightarrow> nat \<Rightarrow> nat \<Rightarrow> nat \<Rightarrow> nat \<Rightarrow> ((nat \<times> nat) \<times> (nat \<times> nat)) list" where
  "copy_cells eo dr ei dc sr sc =
     concat (map (\<lambda>r. map (\<lambda>c. ((eo + r, ei + c),
                                   (ei + (if sr = dc then c else 0), eo + (if sc = dr then r else 0))))
                        [0..<dc])
                 [0..<dr])"

definition add_cell :: "(nat \<times> nat) \<times> (nat \<times> nat) \<Rightarrow> matrix \<Rightarrow> matrix" where
  "add_cell cell G =
     (let i = fst (fst cell); j = snd (fst cell); k = fst (snd cell); l = snd (snd cell)
      in G[i := (G ! i)[j := G ! i ! j + G ! k ! l]])"

definition copy_block :: "nat \<Rightarrow> nat \<Rightarrow> l2loss \<Rightarrow> unit outcome" where
  "copy_block bs_outer bs_inner s =
     (case G_buf s of
        None \<Rightarrow> (Inl AttributeError, s)
      | Some G \<Rightarrow>
          (case e_outer s of
             None \<Rightarrow> (Inl AttributeError, s)
           | Some eo \<Rightarrow>
               (case e_inner s of
                  None \<Rightarrow> (Inl AttributeError, s)
                | Some ei \<Rightarrow>
                    (let row0 = (case G of [] \<Rightarrow> [] | r # _ \<Rightarrow> r);
                         dr = length (slice eo (eo + bs_outer) G);
                         dc = length (slice ei (ei + bs_inner) row0);
                         sr = length (slice ei (ei + bs_inner) G);
                         sc = length (slice eo (eo + bs_outer) row0)
                     in if (sc = dr \<or> sc = 1) \<and> (sr = dc \<or> sr = 1)
                        then (Inr (),
                              s\<lparr>G_buf := Some (fold add_cell (copy_cells eo dr ei dc sr sc) G)\<rparr>)
                        else (Inl RuntimeError, s)))))"

text \<open>
  The inner loop \<^verbatim>\<open>for i_inner, (inputs, targets) in enumerate(self.dataloader)\<close>. The loop
  variables \<^verbatim>\<open>inputs, targets\<close> are those of the enclosing loop too: \<open>cur\<close> is the batch
  they are bound to, and the loop returns their last binding. The \<^verbatim>\<open>for\<close> statement binds
  them to the next batch before the body runs, so they are bound to the batch at which the
  loop breaks.
\<close>

fun inner_loop :: "nat \<Rightarrow> nat \<Rightarrow> nat \<Rightarrow> batch \<Rightarrow> batch list \<Rightarrow> l2loss \<Rightarrow> batch outcome" where
  "inner_loop i_outer bs_outer i_inner cur [] s = (Inr cur, s)"
| "inner_loop i_outer bs_outer i_inner cur (b # rest) s =
     (if i_inner > i_outer then (Inr b, s)
      else
        (case run_pass b s of
           (Inl e, s1) \<Rightarrow> (Inl e, s1)
         | (Inr u, s1) \<Rightarrow>
             (case (if i_inner < i_outer then copy_block bs_outer (targets_size b) s1
                    else (Inr (), s1)) of
                (Inl e, s2) \<Rightarrow> (Inl e, s2)
              | (Inr u, s2) \<Rightarrow>
                  (case e_inner s2 of
                     None \<Rightarrow> (Inl AttributeError, s2)
                   | Some ei \<Rightarrow>
                       inner_loop i_outer bs_outer (Suc i_inner) b rest
                         (s2\<lparr>e_inner := Some (ei + inputs_size b)\<rparr>)))))"

text \<open>
  The outer loop \<^verbatim>\<open>for i_outer, (inputs, targets) in enumerate(self.dataloader)\<close>. After
  the inner loop, \<^verbatim>\<open>self.e_outer += inputs.size(0)\<close> reads \<^verbatim>\<open>inputs\<close> as the inner loop
  left it.
\<close>

fun outer_loop :: "nat \<Rightarrow> batch list \<Rightarrow> l2loss \<Rightarrow> unit outcome" where
  "outer_loop i_outer [] s = (Inr (), s)"
| "outer_loop i_outer (b # rest) s =
     (case run_pass b (s\<lparr>outerloop_switch := Some True\<rparr>) of
        (Inl e, s1) \<Rightarrow> (Inl e, s1)
      | (Inr u, s1) \<Rightarrow>
          (case inner_loop i_outer (targets_size b) 0 b (batches (dataloader s1))
                  (s1\<lparr>outerloop_switch := Some False, e_inner := Some 0\<rparr>) of
             (Inl e, s2) \<Rightarrow> (Inl e, s2)
           | (Inr inputs, s2) \<Rightarrow>
               (case e_outer s2 of
                  None \<Rightarrow> (Inl AttributeError, s2)
                | Some eo \<Rightarrow>
                    outer_loop (Suc i_outer) rest (s2\<lparr>e_outer := Some (eo + inputs_size inputs)\<rparr>))))"

text \<open>
  The end of \<^verbatim>\<open>get_matrix\<close>: \<^verbatim>\<open>del self.e_inner, self.e_outer\<close> and \<^verbatim>\<open>del self.G\<close>
  raise AttributeError on an attribute that was never set; then two of the buffers are
  reset and every handle the object holds is removed.
\<close>

definition get_matrix_finish :: "l2loss \<Rightarrow> matrix outcome" where
  "get_matrix_finish s =
     (case G_buf s of
        None \<Rightarrow> (Inl AttributeError, s)
      | Some G \<Rightarrow>
          if e_inner s = None then (Inl AttributeError, s)
          else if e_outer s = None then (Inl AttributeError, s\<lparr>e_inner := None\<rparr>)
          else
            (Inr G,
             remove_handles (handles s)
               (s\<lparr>e_inner := None, e_outer := None, G_buf := None,
                  x_inner := Map.empty, x_outer := Map.empty\<rparr>)))"

text \<open>\<^verbatim>\<open>self.handles += self._add_hooks(hook_x, hook_gy)\<close>.\<close>

definition attach_hooks :: "fhook \<Rightarrow> bhook \<Rightarrow> l2loss \<Rightarrow> l2loss" where
  "attach_hooks hook_x hook_gy s =
     (let r = add_hooks hook_x hook_gy (mods s) s
      in (snd r)\<lparr>handles := handles (snd r) @ fst r\<rparr>)"

text \<open>\<^verbatim>\<open>self.G = torch.zeros((n_examples, n_examples)); self.e_outer = 0\<close>.\<close>

definition gram_init :: "l2loss \<Rightarrow> l2loss" where
  "gram_init s =
     (let n_examples = n_sampler (dataloader s)
      in s\<lparr>G_buf := Some (zeros n_examples n_examples), e_outer := Some 0\<rparr>)"

text \<open>
  \<^verbatim>\<open>get_matrix\<close>. \<^verbatim>\<open>next(self.model.parameters())\<close> raises StopIteration on a model
  without parameters, after the hooks have been registered.
\<close>

definition get_matrix :: "l2loss \<Rightarrow> matrix outcome" where
  "get_matrix s =
     (let s1 = attach_hooks Hook_savex_io Hook_compute_flat_grad s
      in
        if model_parameters (model s1) = [] then (Inl StopIteration, s1)
        else
          (case outer_loop 0 (batches (dataloader s1)) (gram_init s1) of
             (Inl e, s3) \<Rightarrow> (Inl e, s3)
           | (Inr u, s3) \<Rightarrow> get_matrix_finish s3))"

section \<open>\<^verbatim>\<open>implicit_m_norm\<close>\<close>

text \<open>
  The loop of \<^verbatim>\<open>implicit_m_norm\<close>: \<^verbatim>\<open>self._c = v[i:i+bs]; i += bs\<close> and one evaluation
  of the loss closure per batch.
\<close>

fun m_norm_loop :: "vec \<Rightarrow> nat \<Rightarrow> nat \<Rightarrow> batch list \<Rightarrow> l2loss \<Rightarrow> unit outcome" where
  "m_norm_loop v bs i [] s = (Inr (), s)"
| "m_norm_loop v bs i (b # rest) s =
     (case run_pass b (s\<lparr>c_buf := Some (slice i (i + bs) v)\<rparr>) of
        (Inl e, s1) \<Rightarrow> (Inl e, s1)
      | (Inr u, s1) \<Rightarrow> m_norm_loop v bs (i + bs) rest s1)"

text \<open>\<^verbatim>\<open>(self._cTv**2).sum()**.5\<close>.\<close>

definition euclid_norm :: "vec \<Rightarrow> real" where
  "euclid_norm out = sqrt (sum_list (map (\<lambda>x. x ^ 2) out))"

definition n_parameters :: "module list \<Rightarrow> nat" where
  "n_parameters ms = sum_list (map numel (model_parameters ms))"

text \<open>\<^verbatim>\<open>self._cTv = torch.zeros((n_parameters,))\<close>.\<close>

definition m_norm_init :: "l2loss \<Rightarrow> l2loss" where
  "m_norm_init s = s\<lparr>cTv := Some (replicate (n_parameters (model s)) 0)\<rparr>"

text \<open>
  The end of \<^verbatim>\<open>implicit_m_norm\<close>: the norm is taken, \<^verbatim>\<open>_cTv\<close> is deleted, one buffer
  is reset and every handle the object holds is removed.
\<close>

definition m_norm_finish :: "l2loss \<Rightarrow> real outcome" where
  "m_norm_finish s =
     (case cTv s of
        None \<Rightarrow> (Inl AttributeError, s)
      | Some out \<Rightarrow>
          (Inr (euclid_norm out),
           remove_handles (handles s) (s\<lparr>cTv := None, xs_buf := Map.empty\<rparr>)))"

definition implicit_m_norm :: "vec \<Rightarrow> l2loss \<Rightarrow> real outcome" where
  "implicit_m_norm v s =
     (let s1 = attach_hooks Hook_savex Hook_compute_m_norm s
      in
        if model_parameters (model s1) = [] then (Inl StopIteration, s1)
        else
          (case m_norm_loop v (batch_size (dataloader s1)) 0 (batches (dataloader s1))
                  (m_norm_init s1) of
             (Inl e, s3) \<Rightarrow> (Inl e, s3)
           | (Inr u, s3) \<Rightarrow> m_norm_finish s3))"

section \<open>Notions the properties are stated with\<close>

text \<open>
  The parameters of a layer in the order the construction walks them (the weight, then the
  bias if there is one), the retained layers, and the flat offset of the \<open>k\<close>-th retained
  layer in the concatenation of all retained parameters.
\<close>

definition layer_params :: "module \<Rightarrow> param list" where
  "layer_params m =
     (case weight m of
        None \<Rightarrow> []
      | Some w \<Rightarrow> (case bias m of None \<Rightarrow> [w] | Some b \<Rightarrow> [w, b]))"

definition layer_numel :: "module \<Rightarrow> nat" where
  "layer_numel m = sum_list (map numel (layer_params m))"

definition retained :: "module list \<Rightarrow> module list" where
  "retained ms = filter supported ms"

definition retained_params :: "module list \<Rightarrow> param list" where
  "retained_params ms = concat (map layer_params (retained ms))"

definition flat_offset :: "module list \<Rightarrow> nat \<Rightarrow> nat" where
  "flat_offset ms k = sum_list (map layer_numel (take k (retained ms)))"

text \<open>
  Two conditions on a model. Every retained layer has a weight (a module of class
  \<^verbatim>\<open>Linear\<close> or \<^verbatim>\<open>Conv2d\<close> without one makes construction raise AttributeError). Every
  parameter of a retained layer is, by identity, one of \<^verbatim>\<open>model.parameters()\<close>: this is what
  the second assertion of the construction tests.
\<close>

definition has_weights :: "module list \<Rightarrow> bool" where
  "has_weights ms = list_all (\<lambda>m. weight m \<noteq> None) (retained ms)"

definition params_registered :: "module list \<Rightarrow> bool" where
  "params_registered ms =
     list_all (\<lambda>p. pid p \<in> set (map pid (model_parameters ms))) (retained_params ms)"



text \<open>The offsets the construction loop assigns, as a recursion over the retained layers.\<close>

fun assign_pos :: "module list \<Rightarrow> nat \<Rightarrow> (nat \<rightharpoonup> nat) \<Rightarrow> (nat \<rightharpoonup> nat)" where
  "assign_pos [] start pp = pp"
| "assign_pos (m # ms) start pp = assign_pos ms (start + layer_numel m) (pp(mid m \<mapsto> start))"

text \<open>
  The value the Gram-matrix algorithm is to add for one layer and one pair of batches:
  \<open>(X\<^sub>i\<^sub>n X\<^sub>o\<^sub>u\<^sub>t\<^sup>T) \<odot> (GY\<^sub>i\<^sub>n GY\<^sub>o\<^sub>u\<^sub>t\<^sup>T)\<close>, plus \<open>GY\<^sub>i\<^sub>n GY\<^sub>o\<^sub>u\<^sub>t\<^sup>T\<close> when the layer has a bias.
\<close>

definition outer_prod :: "matrix \<Rightarrow> matrix \<Rightarrow> matrix" where
  "outer_prod A B = map (\<lambda>a. map (dot a) B) A"

definition hadamard :: "matrix \<Rightarrow> matrix \<Rightarrow> matrix" where
  "hadamard A B = map2 (map2 (*)) A B"

definition mat_add :: "matrix \<Rightarrow> matrix \<Rightarrow> matrix" where
  "mat_add A B = map2 (map2 (+)) A B"

definition layer_term :: "module \<Rightarrow> batch \<Rightarrow> batch \<Rightarrow> matrix" where
  "layer_term m b_in b_out =
     (let xx = outer_prod (act b_in (mid m)) (act b_out (mid m));
          gg = outer_prod (grad_out b_in (mid m)) (grad_out b_out (mid m))
      in if bias m \<noteq> None then mat_add (hadamard xx gg) gg else hadamard xx gg)"

text \<open>
  The part of the object that no hook and no loop of a query touches: the handles held, the
  hook tables, the model, the loader, the retained layers and their offsets.
\<close>

definition frame :: "l2loss \<Rightarrow> nat list \<times> (nat \<times> nat \<times> fhook) list \<times> (nat \<times> nat \<times> bhook) list \<times> module list \<times> loader \<times> module list \<times> (nat \<rightharpoonup> nat) \<times> nat" where
  "frame s = (handles s, fwd_pre_hooks s, bwd_hooks s, model s, dataloader s, mods s, p_pos s, next_handle s)"

definition registered :: "l2loss \<Rightarrow> nat \<Rightarrow> bool" where
  "registered s h = (h \<in> fst ` set (fwd_pre_hooks s) \<or> h \<in> fst ` set (bwd_hooks s))"


text \<open>
  The loop of \<^verbatim>\<open>implicit_m_norm\<close> read in two steps: the values \<^verbatim>\<open>self._c\<close> takes
  (\<^verbatim>\<open>v[i:i+bs]\<close> with \<^verbatim>\<open>i\<close> advanced by the nominal batch size), and one pass per batch
  with \<^verbatim>\<open>self._c\<close> set to the value of its turn.
\<close>

fun m_norm_slices :: "vec \<Rightarrow> nat \<Rightarrow> nat \<Rightarrow> batch list \<Rightarrow> vec list" where
  "m_norm_slices v bs i [] = []"
| "m_norm_slices v bs i (b # rest) = slice i (i + bs) v # m_norm_slices v bs (i + bs) rest"

fun run_passes :: "(vec \<times> batch) list \<Rightarrow> l2loss \<Rightarrow> unit outcome" where
  "run_passes [] s = (Inr (), s)"
| "run_passes (cb # rest) s =
     (case run_pass (snd cb) (s\<lparr>c_buf := Some (fst cb)\<rparr>) of
        (Inl e, s1) \<Rightarrow> (Inl e, s1)
      | (Inr u, s1) \<Rightarrow> run_passes rest s1)"

text \<open>The position of the first example of the \<open>k\<close>-th batch among all examples.\<close>

definition example_offset :: "batch list \<Rightarrow> nat \<Rightarrow> nat" where
  "example_offset bl k = sum_list (map inputs_size (take k bl))"

text \<open>
  What a \<^verbatim>\<open>DataLoader\<close> yields: every batch but the last has \<^verbatim>\<open>batch_size\<close> examples, the
  last has at least one and at most \<^verbatim>\<open>batch_size\<close>, inputs and targets of a batch have the
  same number of examples, and the sampler counts all of them.
\<close>

definition wf_loader :: "loader \<Rightarrow> bool" where
  "wf_loader dl =
     (list_all (\<lambda>b. inputs_size b = batch_size dl) (butlast (batches dl))
      \<and> list_all (\<lambda>b. 0 < inputs_size b \<and> inputs_size b \<le> batch_size dl \<and> targets_size b = inputs_size b)
           (batches dl)
      \<and> n_sampler dl = sum_list (map inputs_size (batches dl)))"

text \<open>
  Handle identities are fresh when no handle the object holds and no entry of a hook table has
  an identity that is still to be issued; this holds from construction on.
\<close>

definition handles_fresh :: "l2loss \<Rightarrow> bool" where
  "handles_fresh s =
     (list_all (\<lambda>h. h < next_handle s) (handles s)
      \<and> list_all (\<lambda>e. fst e < next_handle s) (fwd_pre_hooks s)
      \<and> list_all (\<lambda>e. fst e < next_handle s) (bwd_hooks s))"

text \<open>
  The hooks of a query after it has returned, \<open>s\<close> being the object before the query and
  \<open>s'\<close> the object after it. The object holds its old handles and the new ones of the query;
  every new handle was registered by the query and none of the handles held is registered any
  more; the tables are the old ones without the entries of handles held. The cleanup loop calls
  \<^verbatim>\<open>remove()\<close> once for each element of the list of handles, so a handle is deregistered as
  often as it occurs in that list: with fresh identities every new handle occurs once, and the
  tables lose only entries of handles the object held before the query.
\<close>

definition deregistered_once :: "fhook \<Rightarrow> bhook \<Rightarrow> l2loss \<Rightarrow> l2loss \<Rightarrow> bool" where
  "deregistered_once hook_x hook_gy s s' =
     (let new = fst (add_hooks hook_x hook_gy (mods s) s) in
      handles s' = handles s @ new
      \<and> list_all (registered (attach_hooks hook_x hook_gy s)) new
      \<and> list_all (\<lambda>h. \<not> registered s' h) (handles s')
      \<and> fwd_pre_hooks s' = filter (\<lambda>e. fst e \<notin> set (handles s')) (fwd_pre_hooks s)
      \<and> bwd_hooks s' = filter (\<lambda>e. fst e \<notin> set (handles s')) (bwd_hooks s)
      \<and> (if handles_fresh s
          then list_all (\<lambda>h. count_list (handles s') h = 1) new
               \<and> fwd_pre_hooks s' = filter (\<lambda>e. fst e \<notin> set (handles s)) (fwd_pre_hooks s)
               \<and> bwd_hooks s' = filter (\<lambda>e. fst e \<notin> set (handles s)) (bwd_hooks s)
               \<and> handles_fresh s'
          else True))"

text \<open>
  The hooks of a query after it has raised: the tables are as the registration of the query
  left them, and every new handle is still registered.
\<close>

definition still_registered :: "fhook \<Rightarrow> bhook \<Rightarrow> l2loss \<Rightarrow> l2loss \<Rightarrow> bool" where
  "still_registered hook_x hook_gy s s' =
     (let new = fst (add_hooks hook_x hook_gy (mods s) s) in
      handles s' = handles s @ new
      \<and> fwd_pre_hooks s' = fwd_pre_hooks (attach_hooks hook_x hook_gy s)
      \<and> bwd_hooks s' = bwd_hooks (attach_hooks hook_x hook_gy s)
      \<and> list_all (registered s') new)"
















section \<open>Concrete models and loaders\<close>

text \<open>
  A container with one \<^verbatim>\<open>Linear(2, 1)\<close> layer, and a loader of three examples with batch
  size 2: a batch of two examples and a final batch of one.
\<close>

definition ex_container :: module where
  "ex_container = \<lparr>mid = 0, mod_class = ''Sequential'', weight = None, bias = None, own_params = []\<rparr>"

definition ex_w :: param where
  "ex_w = \<lparr>pid = 0, shape = [1, 2], requires_grad = True\<rparr>"

definition ex_b :: param where
  "ex_b = \<lparr>pid = 1, shape = [1], requires_grad = True\<rparr>"

definition ex_fc :: module where
  "ex_fc = \<lparr>mid = 1, mod_class = ''Linear'', weight = Some ex_w, bias = Some ex_b,
            own_params = [ex_w, ex_b]\<rparr>"

definition ex_net :: "module list" where
  "ex_net = [ex_container, ex_fc]"

definition ex_batch0 :: batch where
  "ex_batch0 = \<lparr>inputs_size = 2, targets_size = 2,
                act = (\<lambda>k. [[1, 0], [0, 1]]), grad_out = (\<lambda>k. [[1], [1]])\<rparr>"

definition ex_batch1 :: batch where
  "ex_batch1 = \<lparr>inputs_size = 1, targets_size = 1,
                act = (\<lambda>k. [[1, 1]]), grad_out = (\<lambda>k. [[1]])\<rparr>"

definition ex_loader :: loader where
  "ex_loader = \<lparr>batches = [ex_batch0, ex_batch1], batch_size = 2, n_sampler = 3\<rparr>"

text \<open>The generator that construction yields for this model and loader.\<close>

definition ex_gen :: l2loss where
  "ex_gen =
     \<lparr>model = ex_net, dataloader = ex_loader, handles = [],
      x_outer = Map.empty, x_inner = Map.empty, xs_buf = Map.empty,
      gy_outer = Map.empty, p_pos = [1 \<mapsto> 0], mods = [ex_fc], outerloop_switch = None,
      G_buf = None, e_outer = None, e_inner = None, cTv = None, c_buf = None,
      fwd_pre_hooks = [], bwd_hooks = [], next_handle = 0, loss_calls = 0\<rparr>"

text \<open>
  A \<^verbatim>\<open>Conv2d(1, 1, 1)\<close> layer followed by the linear layer, and a loader of one batch of
  one example.
\<close>

definition ex_cw :: param where
  "ex_cw = \<lparr>pid = 2, shape = [1, 1, 1, 1], requires_grad = True\<rparr>"

definition ex_cb :: param where
  "ex_cb = \<lparr>pid = 3, shape = [1], requires_grad = True\<rparr>"

definition ex_conv :: module where
  "ex_conv = \<lparr>mid = 2, mod_class = ''Conv2d'', weight = Some ex_cw, bias = Some ex_cb,
              own_params = [ex_cw, ex_cb]\<rparr>"

definition ex_convnet :: "module list" where
  "ex_convnet = [ex_container, ex_conv, ex_fc]"

definition ex_loader1 :: loader where
  "ex_loader1 = \<lparr>batches = [ex_batch1], batch_size = 1, n_sampler = 1\<rparr>"

definition ex_convgen :: l2loss where
  "ex_convgen =
     \<lparr>model = ex_convnet, dataloader = ex_loader1, handles = [],
      x_outer = Map.empty, x_inner = Map.empty, xs_buf = Map.empty,
      gy_outer = Map.empty, p_pos = [2 \<mapsto> 0, 1 \<mapsto> 2], mods = [ex_conv, ex_fc],
      outerloop_switch = None,
      G_buf = None, e_outer = None, e_inner = None, cTv = None, c_buf = None,
      fwd_pre_hooks = [], bwd_hooks = [], next_handle = 0, loss_calls = 0\<rparr>"

text \<open>The linear layer followed by a \<^verbatim>\<open>BatchNorm1d(1)\<close> layer, which owns trainable parameters.\<close>

definition ex_nw :: param where
  "ex_nw = \<lparr>pid = 4, shape = [1], requires_grad = True\<rparr>"

definition ex_nb :: param where
  "ex_nb = \<lparr>pid = 5, shape = [1], requires_grad = True\<rparr>"

definition ex_bn :: module where
  "ex_bn = \<lparr>mid = 3, mod_class = ''BatchNorm1d'', weight = Some ex_nw, bias = Some ex_nb,
            own_params = [ex_nw, ex_nb]\<rparr>"

definition ex_bnnet :: "module list" where
  "ex_bnnet = [ex_container, ex_fc, ex_bn]"




text \<open>
  The convolutional generator in the middle of a pass: the state in which the backward hook
  of the convolution runs in \<^verbatim>\<open>implicit_m_norm\<close>, and the one in which it runs in the
  inner loop of \<^verbatim>\<open>get_matrix\<close>.
\<close>

definition ex_conv_mid_m_norm :: l2loss where
  "ex_conv_mid_m_norm =
     ex_convgen\<lparr>xs_buf := [2 \<mapsto> [[1]], 1 \<mapsto> [[1, 1]]], cTv := Some [0, 0, 0, 0, 0],
                c_buf := Some [1]\<rparr>"

definition ex_conv_mid_gram :: l2loss where
  "ex_conv_mid_gram =
     ex_convgen\<lparr>x_outer := [2 \<mapsto> [[1]], 1 \<mapsto> [[1, 1]]], x_inner := [2 \<mapsto> [[1]], 1 \<mapsto> [[1, 1]]],
                gy_outer := [1 \<mapsto> [[1]], 2 \<mapsto> [[1]]], outerloop_switch := Some False,
                G_buf := Some [[0]], e_outer := Some 0, e_inner := Some 0\<rparr>"

text \<open>
  A \<^verbatim>\<open>Linear(2, 1, bias=False)\<close> layer after \<^verbatim>\<open>torch.nn.utils.prune\<close>: the attribute
  \<^verbatim>\<open>weight\<close> is a tensor computed from the registered parameter \<^verbatim>\<open>weight_orig\<close> of the same
  shape, and is not itself a parameter of the model.
\<close>

definition ex_pw :: param where
  "ex_pw = \<lparr>pid = 6, shape = [1, 2], requires_grad = True\<rparr>"

definition ex_pw_orig :: param where
  "ex_pw_orig = \<lparr>pid = 7, shape = [1, 2], requires_grad = True\<rparr>"

definition ex_pruned_fc :: module where
  "ex_pruned_fc = \<lparr>mid = 1, mod_class = ''Linear'', weight = Some ex_pw, bias = None,
                   own_params = [ex_pw_orig]\<rparr>"

definition ex_prunednet :: "module list" where
  "ex_prunednet = [ex_container, ex_pruned_fc]"



section \<open>Construction checks the parameter layout\<close>

lemma gim_loop_app:
  "list_all (\<lambda>m. weight m \<noteq> None) (retained ms) \<Longrightarrow>
   gim_loop ms (mods0, pp, sizes, params, start) =
     Inr (mods0 @ retained ms, assign_pos (retained ms) start pp,
          sizes @ map shape (retained_params ms),
          params @ retained_params ms, start + sum_list (map layer_numel (retained ms)))"
proof (induction ms arbitrary: mods0 pp sizes params start)
  case Nil
  then show ?case by (simp add: retained_def retained_params_def)
next
  case (Cons m ms)
  show ?case
  proof (cases "supported m")
    case False
    then have wf: "list_all (\<lambda>m. weight m \<noteq> None) (retained ms)"
      using Cons.prems by (simp add: retained_def)
    show ?thesis using False Cons.IH[OF wf] by (simp add: retained_def retained_params_def)
  next
    case True
    then have wf: "list_all (\<lambda>m. weight m \<noteq> None) (retained ms)"
      and "weight m \<noteq> None"
      using Cons.prems by (simp_all add: retained_def)
    then obtain w where w: "weight m = Some w" by auto
    show ?thesis
    proof (cases "bias m")
      case None
      then have step: "gim_loop (m # ms) (mods0, pp, sizes, params, start) =
          gim_loop ms (mods0 @ [m], pp(mid m \<mapsto> start), sizes @ [shape w], params @ [w],
            start + numel w)"
        using True w by simp
      have r: "retained (m # ms) = m # retained ms" "layer_params m = [w]"
        "layer_numel m = numel w"
        using True w None by (simp_all add: retained_def layer_params_def layer_numel_def)
      show ?thesis
        unfolding step Cons.IH[OF wf] r
        by (simp add: retained_params_def r)
    next
      case (Some b)
      then have step: "gim_loop (m # ms) (mods0, pp, sizes, params, start) =
          gim_loop ms (mods0 @ [m], pp(mid m \<mapsto> start), sizes @ [shape w, shape b],
            params @ [w, b], start + numel w + numel b)"
        using True w by simp
      have r: "retained (m # ms) = m # retained ms" "layer_params m = [w, b]"
        "layer_numel m = numel w + numel b"
        using True w Some by (simp_all add: retained_def layer_params_def layer_numel_def)
      show ?thesis
        unfolding step Cons.IH[OF wf] r
        by (simp add: retained_params_def r add.assoc)
    qed
  qed
qed

lemma assign_pos_other: "k \<notin> mid ` set ms \<Longrightarrow> assign_pos ms start pp k = pp k"
  by (induction ms arbitrary: start pp) auto

lemma assign_pos_nth:
  "distinct (map mid ms) \<Longrightarrow> k < length ms \<Longrightarrow>
   assign_pos ms start pp (mid (ms ! k)) = Some (start + sum_list (map layer_numel (take k ms)))"
proof (induction ms arbitrary: start pp k)
  case Nil
  then show ?case by simp
next
  case (Cons m ms)
  show ?case
  proof (cases k)
    case 0
    then show ?thesis using Cons.prems by (simp add: assign_pos_other)
  next
    case (Suc j)
    then have "j < length ms" "distinct (map mid ms)" using Cons.prems by simp_all
    then show ?thesis using Suc by (simp add: Cons.IH add.assoc)
  qed
qed

lemma dedup_pids: "pid ` set (dedup seen ps) \<union> set seen = pid ` set ps \<union> set seen"
proof (induction ps arbitrary: seen)
  case Nil
  then show ?case by simp
next
  case (Cons p ps)
  show ?case
  proof (cases "pid p \<in> set seen")
    case True
    then show ?thesis using Cons.IH[of seen] by auto
  next
    case False
    then show ?thesis using Cons.IH[of "pid p # seen"] by auto
  qed
qed

lemma dedup_subset: "set (dedup seen ps) \<subseteq> set ps"
  by (induction ps arbitrary: seen) auto

text \<open>The second assertion passes exactly when every retained parameter is registered.\<close>

lemma second_assert_iff:
  "(filter (\<lambda>p. pid p \<notin> set (map pid (model_parameters ms))) (dedup [] (retained_params ms)) = [])
     = params_registered ms"
proof -
  let ?M = "set (map pid (model_parameters ms))"
  have "(\<forall>p \<in> set (dedup [] (retained_params ms)). pid p \<in> ?M) =
        (pid ` set (dedup [] (retained_params ms)) \<subseteq> ?M)" by blast
  also have "\<dots> = (pid ` set (retained_params ms) \<subseteq> ?M)"
    using dedup_pids[of "[]" "retained_params ms"] by simp
  also have "\<dots> = (\<forall>p \<in> set (retained_params ms). pid p \<in> ?M)" by blast
  finally show ?thesis by (simp add: filter_empty_conv params_registered_def list_all_iff)
qed

lemma L2Loss_init_ok:
  assumes "has_weights ms"
    and "map shape (retained_params ms) = map shape (filter requires_grad (model_parameters ms))"
    and "params_registered ms"
  shows "\<exists>s. L2Loss_init ms dl = Inr s \<and> mods s = retained ms
            \<and> p_pos s = assign_pos (retained ms) 0 Map.empty"
proof -
  have wf: "list_all (\<lambda>m. weight m \<noteq> None) (retained ms)"
    using assms(1) by (simp add: has_weights_def)
  note loop = gim_loop_app[OF wf, of "[]" Map.empty "[]" "[]" 0]
  have two: "filter (\<lambda>p. pid p \<notin> set (map pid (model_parameters ms)))
      (dedup [] (retained_params ms)) = []"
    using assms(3) second_assert_iff by blast
  show ?thesis
    using loop two assms(2)
    by (simp add: L2Loss_init_def get_individual_modules_def Let_def)
qed


text \<open>
  Claim C7, refuted as stated. For the pruned linear layer the shapes of the retained layer's
  parameters and of the model's trainable parameters agree, and construction still raises:
  the weight the layer exposes is not one of the model's parameters, which the second
  assertion rejects.
\<close>

theorem construction_rejects_equal_shapes:
  "map shape (retained_params ex_prunednet) =
     map shape (filter requires_grad (model_parameters ex_prunednet))
   \<and> L2Loss_init ex_prunednet ex_loader = Inl AssertionError"
proof -
  have "map shape (retained_params ex_prunednet) =
     map shape (filter requires_grad (model_parameters ex_prunednet))"
    by code_simp
  moreover have "L2Loss_init ex_prunednet ex_loader = Inl AssertionError"
    by (simp add: L2Loss_init_def get_individual_modules_def ex_prunednet_def
        ex_container_def ex_pruned_fc_def supported_def model_parameters_def ex_pw_def
        ex_pw_orig_def numel_def)
  ultimately show ?thesis by simp
qed

text \<open>
  Claim C7, amended. For a model whose retained layers all have a weight, construction raises
  the configuration error (a failed assertion) exactly when the shapes of the retained layers'
  parameters, walked in order, differ from the shapes of the model's trainable parameters in
  order, or some parameter of a retained layer is not one of the model's parameters. When
  neither is the case construction succeeds and retains exactly the supported layers, and
  (the retained layers being distinct modules) records for the \<open>k\<close>-th retained layer the total
  size of the parameters of the retained layers before it.
\<close>

theorem construction_assertions:
  assumes "has_weights ms"
  shows "(L2Loss_init ms dl = Inl AssertionError) =
           (map shape (retained_params ms) \<noteq> map shape (filter requires_grad (model_parameters ms))
            \<or> \<not> params_registered ms)
       \<and> (map shape (retained_params ms) = map shape (filter requires_grad (model_parameters ms))
            \<and> params_registered ms \<longrightarrow>
            (\<exists>s. L2Loss_init ms dl = Inr s \<and> mods s = retained ms \<and>
                 (distinct (map mid (retained ms)) \<longrightarrow>
                    (\<forall>k < length (retained ms).
                        p_pos s (mid (retained ms ! k)) = Some (flat_offset ms k)))))"
proof -
  have wf: "list_all (\<lambda>m. weight m \<noteq> None) (retained ms)"
    using assms by (simp add: has_weights_def)
  note loop = gim_loop_app[OF wf, of "[]" Map.empty "[]" "[]" 0]
  have raise: "(L2Loss_init ms dl = Inl AssertionError) =
           (map shape (retained_params ms) \<noteq> map shape (filter requires_grad (model_parameters ms))
            \<or> \<not> params_registered ms)"
    using loop second_assert_iff[of ms]
    by (auto simp: L2Loss_init_def get_individual_modules_def Let_def)
  have ok: "map shape (retained_params ms) = map shape (filter requires_grad (model_parameters ms))
            \<and> params_registered ms \<longrightarrow>
            (\<exists>s. L2Loss_init ms dl = Inr s \<and> mods s = retained ms \<and>
                 (distinct (map mid (retained ms)) \<longrightarrow>
                    (\<forall>k < length (retained ms).
                        p_pos s (mid (retained ms ! k)) = Some (flat_offset ms k))))"
  proof
    assume a: "map shape (retained_params ms) = map shape (filter requires_grad (model_parameters ms))
            \<and> params_registered ms"
    from L2Loss_init_ok[OF assms, of dl] a obtain s where
      s: "L2Loss_init ms dl = Inr s" "mods s = retained ms"
         "p_pos s = assign_pos (retained ms) 0 Map.empty" by blast
    have "distinct (map mid (retained ms)) \<longrightarrow>
                    (\<forall>k < length (retained ms).
                        p_pos s (mid (retained ms ! k)) = Some (flat_offset ms k))"
      using assign_pos_nth[of "retained ms" _ 0 Map.empty] s(3)
      by (simp add: flat_offset_def)
    then show "\<exists>s. L2Loss_init ms dl = Inr s \<and> mods s = retained ms \<and>
                 (distinct (map mid (retained ms)) \<longrightarrow>
                    (\<forall>k < length (retained ms).
                        p_pos s (mid (retained ms ! k)) = Some (flat_offset ms k)))"
      using s by blast
  qed
  show ?thesis using raise ok by blast
qed

theorem construction_assertions_witness:
  "has_weights ex_net \<and> has_weights ex_bnnet \<and> has_weights ex_prunednet
   \<and> (\<exists>s. L2Loss_init ex_net ex_loader = Inr s \<and> mods s = [ex_fc] \<and> p_pos s 1 = Some 0)
   \<and> L2Loss_init ex_bnnet ex_loader = Inl AssertionError
   \<and> L2Loss_init ex_prunednet ex_loader = Inl AssertionError"
proof -
  have wf1: "has_weights ex_net" by code_simp
  have wf2: "has_weights ex_bnnet" by code_simp
  have wf3: "has_weights ex_prunednet" by code_simp
  have same: "map shape (retained_params ex_net) =
      map shape (filter requires_grad (model_parameters ex_net))"
    by code_simp
  have reg: "params_registered ex_net" by code_simp
  have differ: "map shape (retained_params ex_bnnet) \<noteq>
      map shape (filter requires_grad (model_parameters ex_bnnet))"
    by code_simp
  have unreg: "\<not> params_registered ex_prunednet" by code_simp
  have r: "retained ex_net = [ex_fc]" by code_simp
  have d: "distinct (map mid (retained ex_net))" by code_simp
  have m: "mid ex_fc = 1" by code_simp
  have f: "flat_offset ex_net 0 = 0" by code_simp
  from construction_assertions[OF wf1, of ex_loader] same reg d
  obtain s where s: "L2Loss_init ex_net ex_loader = Inr s" "mods s = retained ex_net"
    "\<forall>k < length (retained ex_net). p_pos s (mid (retained ex_net ! k)) = Some (flat_offset ex_net k)"
    by blast
  from s(3) have "p_pos s 1 = Some 0" by (simp add: r m f)
  with s r have ok: "\<exists>s. L2Loss_init ex_net ex_loader = Inr s \<and> mods s = [ex_fc] \<and> p_pos s 1 = Some 0"
    by auto
  from construction_assertions[OF wf2, of ex_loader] differ
  have bad: "L2Loss_init ex_bnnet ex_loader = Inl AssertionError" by blast
  from construction_assertions[OF wf3, of ex_loader] unreg
  have bad2: "L2Loss_init ex_prunednet ex_loader = Inl AssertionError" by blast
  show ?thesis using wf1 wf2 wf3 ok bad bad2 by blast
qed






section \<open>\<^verbatim>\<open>get_matrix\<close> on a loader whose last batch is smaller\<close>


text \<open>
  Claim C9, evaluated. After the first outer iteration on this loader, \<open>e_outer\<close> is 1: it was
  advanced by the size of the second batch, to which the inner loop had rebound
  \<^verbatim>\<open>inputs\<close> before breaking, although the first batch holds two examples.
\<close>

theorem e_outer_after_first_batch_ragged:
  "sum_list (map inputs_size (take 1 (batches ex_loader))) = 2 \<and>
   e_outer (snd (outer_loop 0 (take 1 (batches ex_loader))
      (gram_init (attach_hooks Hook_savex_io Hook_compute_flat_grad ex_gen)))) = Some 1"
  by code_simp

text \<open>
  Claim C1, evaluated. On this loader the query returns
  \<open>[[2, 3, 0], [4, 8, 0], [0, 3, 0]]\<close>. For the outer batch 1 (example 2) and the inner
  batch 0 (examples 0 and 1) the layer's term is \<open>[[2], [2]]\<close>, but the block of rows 0..1
  and column 2 stays zero: the term was added to column 1.
\<close>

theorem gram_block_misplaced_ragged:
  "(\<exists>G. fst (get_matrix ex_gen) = Inr G \<and> block 0 2 2 3 G = [[0], [0]]
        \<and> block 0 2 1 2 G = [[3], [8]])
   \<and> layer_term ex_fc ex_batch0 ex_batch1 = [[2], [2]]"
proof -
  have "fst (get_matrix ex_gen) = Inr [[2, 3, 0], [4, 8, 0], [0, 3, 0]]" by code_simp
  moreover have "block 0 2 2 3 [[2, 3, 0], [4, 8, 0], [0, 3, 0]] = [[0], [0]]" by code_simp
  moreover have "block 0 2 1 2 [[2, 3, 0], [4, 8, 0], [0, 3, 0]] = [[3], [8]]" by code_simp
  moreover have "layer_term ex_fc ex_batch0 ex_batch1 = [[2], [2]]" by code_simp
  ultimately show ?thesis by simp
qed

text \<open>
  Claim C2, evaluated. In the matrix returned on this loader, the block of the outer batch's
  row (row 2) and the inner batch's columns (0..1) is \<open>[[0, 3]]\<close>, while the transpose of
  the block of rows 0..1 and column 2 is \<open>[[0, 0]]\<close>; the matrix is not symmetric.
\<close>

theorem gram_not_symmetric_ragged:
  "\<exists>G. fst (get_matrix ex_gen) = Inr G \<and> block 2 3 0 2 G = [[0, 3]]
       \<and> transpose (block 0 2 2 3 G) = [[0, 0]] \<and> transpose G \<noteq> G"
proof -
  have "fst (get_matrix ex_gen) = Inr [[2, 3, 0], [4, 8, 0], [0, 3, 0]]" by code_simp
  moreover have "block 2 3 0 2 [[2, 3, 0], [4, 8, 0], [0, 3, 0]] = [[0, 3]]" by code_simp
  moreover have "transpose (block 0 2 2 3 [[2, 3, 0], [4, 8, 0], [0, 3, 0]]) = [[0, 0]]"
    by code_simp
  moreover have "transpose [[2, 3, 0], [4, 8, 0], [0, 3, 0]] \<noteq> [[2, 3, 0 :: real], [4, 8, 0], [0, 3, 0]]"
    by code_simp
  ultimately show ?thesis by simp
qed

section \<open>Buffers after a query\<close>

text \<open>
  Claim C6, evaluated. \<^verbatim>\<open>get_matrix\<close> returns normally on \<^term>\<open>ex_gen\<close>, and afterwards
  \<open>gy_outer\<close> still holds the output gradient of the last outer batch for the linear layer;
  \<^const>\<open>release_buffers\<close> would have emptied it.
\<close>

theorem gy_outer_kept_after_get_matrix:
  "(\<exists>G. fst (get_matrix ex_gen) = Inr G)
   \<and> gy_outer (snd (get_matrix ex_gen)) 1 = Some [[1]]
   \<and> x_outer (snd (get_matrix ex_gen)) 1 = None
   \<and> x_inner (snd (get_matrix ex_gen)) 1 = None
   \<and> gy_outer (release_buffers (snd (get_matrix ex_gen))) 1 = None"
proof -
  have "fst (get_matrix ex_gen) = Inr [[2, 3, 0], [4, 8, 0], [0, 3, 0]]" by code_simp
  moreover have "gy_outer (snd (get_matrix ex_gen)) 1 = Some [[1]]" by code_simp
  moreover have "x_outer (snd (get_matrix ex_gen)) 1 = None" by code_simp
  moreover have "x_inner (snd (get_matrix ex_gen)) 1 = None" by code_simp
  moreover have "gy_outer (release_buffers (snd (get_matrix ex_gen))) 1 = None"
    by (simp add: release_buffers_def)
  ultimately show ?thesis by simp
qed

section \<open>What hooks, passes and loops leave unchanged\<close>

lemma G_iadd_frame: "G_iadd a b opnd s = (r, s') \<Longrightarrow> frame s' = frame s \<and> outerloop_switch s' = outerloop_switch s"
  by (auto simp: G_iadd_def frame_def split: option.splits sum.splits)

lemma cTv_iadd_frame: "cTv_iadd bnds opnd s = (r, s') \<Longrightarrow> frame s' = frame s \<and> outerloop_switch s' = outerloop_switch s"
  by (auto simp: cTv_iadd_def frame_def split: option.splits sum.splits prod.splits)

lemma hook_savex_io_frame: "hook_savex_io m i s = (r, s') \<Longrightarrow> frame s' = frame s \<and> outerloop_switch s' = outerloop_switch s"
  by (auto simp: hook_savex_io_def frame_def split: option.splits if_splits)

lemma hook_savex_frame: "hook_savex m i s = (r, s') \<Longrightarrow> frame s' = frame s \<and> outerloop_switch s' = outerloop_switch s"
  by (auto simp: hook_savex_def frame_def)

lemma hook_compute_flat_grad_frame:
  "hook_compute_flat_grad m g s = (r, s') \<Longrightarrow> frame s' = frame s \<and> outerloop_switch s' = outerloop_switch s"
  unfolding hook_compute_flat_grad_def
  by (auto split: option.splits prod.splits if_splits sum.splits dest!: G_iadd_frame simp: frame_def)

lemma hook_compute_m_norm_frame:
  "hook_compute_m_norm m g s = (r, s') \<Longrightarrow> frame s' = frame s \<and> outerloop_switch s' = outerloop_switch s"
  unfolding hook_compute_m_norm_def
  by (auto split: option.splits prod.splits if_splits sum.splits dest!: cTv_iadd_frame simp: frame_def)

lemma for_each_frame:
  assumes "\<And>x s r s'. f x s = (r, s') \<Longrightarrow> frame s' = frame s \<and> outerloop_switch s' = outerloop_switch s"
  shows "for_each f xs s = (r, s') \<Longrightarrow> frame s' = frame s \<and> outerloop_switch s' = outerloop_switch s"
proof (induction xs arbitrary: s)
  case Nil
  then show ?case by simp
next
  case (Cons x xs)
  obtain r1 s1 where f: "f x s = (r1, s1)" by (cases "f x s")
  note fr = assms[OF f]
  show ?case
  proof (cases r1)
    case (Inl e)
    then show ?thesis using Cons.prems f fr by simp
  next
    case (Inr u)
    then have "for_each f xs s1 = (r, s')" using Cons.prems f by simp
    from Cons.IH[OF this] fr show ?thesis by simp
  qed
qed

lemma forward_module_frame:
  "forward_module b m s = (r, s') \<Longrightarrow> frame s' = frame s \<and> outerloop_switch s' = outerloop_switch s"
  unfolding forward_module_def
  by (erule for_each_frame[rotated])
     (auto simp: call_fhook_def split: fhook.splits dest: hook_savex_io_frame hook_savex_frame)

lemma backward_module_frame:
  "backward_module b m s = (r, s') \<Longrightarrow> frame s' = frame s \<and> outerloop_switch s' = outerloop_switch s"
  unfolding backward_module_def
  by (erule for_each_frame[rotated])
     (auto simp: call_bhook_def split: bhook.splits dest: hook_compute_flat_grad_frame hook_compute_m_norm_frame)

lemma run_pass_frame:
  assumes "run_pass b s = (r, s')"
  shows "frame s' = frame s \<and> outerloop_switch s' = outerloop_switch s"
proof -
  let ?s0 = "s\<lparr>loss_calls := Suc (loss_calls s)\<rparr>"
  have f0: "frame ?s0 = frame s" "outerloop_switch ?s0 = outerloop_switch s" by (simp_all add: frame_def)
  obtain r1 s1 where fw: "for_each (forward_module b) (model ?s0) ?s0 = (r1, s1)"
    by (cases "for_each (forward_module b) (model ?s0) ?s0")
  have f1: "frame s1 = frame ?s0 \<and> outerloop_switch s1 = outerloop_switch ?s0"
    using for_each_frame[OF _ fw] forward_module_frame by blast
  show ?thesis
  proof (cases r1)
    case (Inl e)
    then show ?thesis using assms fw f1 f0 by (simp add: run_pass_def Let_def)
  next
    case (Inr u)
    then have "for_each (backward_module b) (rev (model s1)) s1 = (r, s')"
      using assms fw by (simp add: run_pass_def Let_def)
    from for_each_frame[OF _ this] backward_module_frame
    have "frame s' = frame s1 \<and> outerloop_switch s' = outerloop_switch s1" by blast
    then show ?thesis using f1 f0 by simp
  qed
qed


lemma copy_block_frame:
  "copy_block a b s = (r, s') \<Longrightarrow> frame s' = frame s \<and> outerloop_switch s' = outerloop_switch s"
  by (auto simp: copy_block_def frame_def Let_def split: option.splits if_splits)

lemma inner_loop_frame:
  "inner_loop io bo ii cur bs s = (r, s') \<Longrightarrow>
     frame s' = frame s \<and> outerloop_switch s' = outerloop_switch s"
proof (induction bs arbitrary: ii cur s)
  case Nil
  then show ?case by simp
next
  case (Cons b bs)
  show ?case
  proof (cases "ii > io")
    case True
    then show ?thesis using Cons.prems by simp
  next
    case False
    obtain r1 s1 where p: "run_pass b s = (r1, s1)" by (cases "run_pass b s")
    note f1 = run_pass_frame[OF p]
    show ?thesis
    proof (cases r1)
      case (Inl e)
      then show ?thesis using Cons.prems False p f1 by simp
    next
      case (Inr u)
      obtain r2 s2 where c: "(if ii < io then copy_block bo (targets_size b) s1 else (Inr (), s1)) = (r2, s2)"
        by (cases "if ii < io then copy_block bo (targets_size b) s1 else (Inr (), s1)")
      have f2: "frame s2 = frame s1 \<and> outerloop_switch s2 = outerloop_switch s1"
        using c copy_block_frame by (auto split: if_splits)
      show ?thesis
      proof (cases r2)
        case (Inl e)
        then show ?thesis using Cons.prems False p Inr c f1 f2 by simp
      next
        case r2: (Inr u2)
        show ?thesis
        proof (cases "e_inner s2")
          case None
          then show ?thesis using Cons.prems False p Inr c r2 f1 f2 by simp
        next
          case (Some ei)
          let ?s3 = "s2\<lparr>e_inner := Some (ei + inputs_size b)\<rparr>"
          have "inner_loop io bo (Suc ii) b bs ?s3 = (r, s')"
            using Cons.prems False p Inr c r2 Some by simp
          from Cons.IH[OF this] have "frame s' = frame ?s3 \<and> outerloop_switch s' = outerloop_switch ?s3" .
          moreover have "frame ?s3 = frame s2" "outerloop_switch ?s3 = outerloop_switch s2"
            by (simp_all add: frame_def)
          ultimately show ?thesis using f1 f2 by simp
        qed
      qed
    qed
  qed
qed

lemma outer_loop_frame:
  "outer_loop io bs s = (r, s') \<Longrightarrow> frame s' = frame s"
proof (induction bs arbitrary: io s)
  case Nil
  then show ?case by simp
next
  case (Cons b bs)
  let ?s0 = "s\<lparr>outerloop_switch := Some True\<rparr>"
  have f0: "frame ?s0 = frame s" by (simp add: frame_def)
  obtain r1 s1 where p: "run_pass b ?s0 = (r1, s1)" by (cases "run_pass b ?s0")
  note f1 = run_pass_frame[OF p]
  show ?case
  proof (cases r1)
    case (Inl e)
    then show ?thesis using Cons.prems p f1 f0 by simp
  next
    case (Inr u)
    let ?s1 = "s1\<lparr>outerloop_switch := Some False, e_inner := Some 0\<rparr>"
    have f1': "frame ?s1 = frame s1" by (simp add: frame_def)
    obtain r2 s2 where i: "inner_loop io (targets_size b) 0 b (batches (dataloader s1)) ?s1 = (r2, s2)"
      by (cases "inner_loop io (targets_size b) 0 b (batches (dataloader s1)) ?s1")
    note f2 = inner_loop_frame[OF i]
    show ?thesis
    proof (cases r2)
      case (Inl e)
      then show ?thesis using Cons.prems p Inr i f0 f1 f1' f2 by simp
    next
      case r2: (Inr inputs)
      show ?thesis
      proof (cases "e_outer s2")
        case None
        then show ?thesis using Cons.prems p Inr i r2 f0 f1 f1' f2 by simp
      next
        case (Some eo)
        let ?s3 = "s2\<lparr>e_outer := Some (eo + inputs_size inputs)\<rparr>"
        have "outer_loop (Suc io) bs ?s3 = (r, s')"
          using Cons.prems p Inr i r2 Some by simp
        from Cons.IH[OF this] have "frame s' = frame ?s3" .
        moreover have "frame ?s3 = frame s2" by (simp add: frame_def)
        ultimately show ?thesis using f0 f1 f1' f2 by simp
      qed
    qed
  qed
qed

lemma m_norm_loop_frame:
  "m_norm_loop v bs i bl s = (r, s') \<Longrightarrow> frame s' = frame s"
proof (induction bl arbitrary: i s)
  case Nil
  then show ?case by simp
next
  case (Cons b bl)
  let ?s0 = "s\<lparr>c_buf := Some (slice i (i + bs) v)\<rparr>"
  have f0: "frame ?s0 = frame s" by (simp add: frame_def)
  obtain r1 s1 where p: "run_pass b ?s0 = (r1, s1)" by (cases "run_pass b ?s0")
  note f1 = run_pass_frame[OF p]
  show ?case
  proof (cases r1)
    case (Inl e)
    then show ?thesis using Cons.prems p f1 f0 by simp
  next
    case (Inr u)
    then have "m_norm_loop v bs (i + bs) bl s1 = (r, s')" using Cons.prems p by simp
    from Cons.IH[OF this] show ?thesis using f0 f1 by simp
  qed
qed

text \<open>Removing handles and registering hooks.\<close>

lemma remove_handles_tables:
  "fwd_pre_hooks (remove_handles hs s) = filter (\<lambda>e. fst e \<notin> set hs) (fwd_pre_hooks s) \<and>
   bwd_hooks (remove_handles hs s) = filter (\<lambda>e. fst e \<notin> set hs) (bwd_hooks s) \<and>
   handles (remove_handles hs s) = handles s"
proof (induction hs arbitrary: s)
  case Nil
  then show ?case by (simp add: remove_handles_def)
next
  case (Cons h hs)
  have "remove_handles (h # hs) s = remove_handles hs (remove_handle h s)"
    by (simp add: remove_handles_def)
  then show ?case using Cons.IH[of "remove_handle h s"]
    by (auto simp: remove_handle_def intro: filter_cong)
qed

lemma add_hooks_result:
  "\<exists>fl bl. fwd_pre_hooks (snd (add_hooks hx hg ms s)) = fwd_pre_hooks s @ fl
     \<and> bwd_hooks (snd (add_hooks hx hg ms s)) = bwd_hooks s @ bl
     \<and> fst ` set fl \<subseteq> set (fst (add_hooks hx hg ms s))
     \<and> fst ` set bl \<subseteq> set (fst (add_hooks hx hg ms s))
     \<and> handles (snd (add_hooks hx hg ms s)) = handles s"
proof (induction ms arbitrary: s)
  case Nil
  then show ?case by simp
next
  case (Cons m ms)
  let ?s1 = "s\<lparr>fwd_pre_hooks := fwd_pre_hooks s @ [(next_handle s, mid m, hx)],
                 bwd_hooks := bwd_hooks s @ [(Suc (next_handle s), mid m, hg)],
                 next_handle := Suc (Suc (next_handle s))\<rparr>"
  from Cons.IH[of ?s1] obtain fl bl where
    h: "fwd_pre_hooks (snd (add_hooks hx hg ms ?s1)) = fwd_pre_hooks ?s1 @ fl"
       "bwd_hooks (snd (add_hooks hx hg ms ?s1)) = bwd_hooks ?s1 @ bl"
       "fst ` set fl \<subseteq> set (fst (add_hooks hx hg ms ?s1))"
       "fst ` set bl \<subseteq> set (fst (add_hooks hx hg ms ?s1))"
       "handles (snd (add_hooks hx hg ms ?s1)) = handles ?s1"
    by blast
  show ?case
    apply (rule exI[of _ "(next_handle s, mid m, hx) # fl"])
    apply (rule exI[of _ "(Suc (next_handle s), mid m, hg) # bl"])
    using h by (auto simp: Let_def)
qed

section \<open>A layer without an accumulation formula ends the query\<close>

lemma hook_compute_flat_grad_unsupported:
  "mod_class m \<noteq> ''Linear'' \<Longrightarrow> outerloop_switch s = Some False \<Longrightarrow>
   isl (fst (hook_compute_flat_grad m g s))"
  by (simp add: hook_compute_flat_grad_def split: option.splits)

lemma hook_compute_m_norm_unsupported:
  "mod_class m \<noteq> ''Linear'' \<Longrightarrow> isl (fst (hook_compute_m_norm m g s))"
  by (simp add: hook_compute_m_norm_def split: option.splits)

lemma for_each_raises:
  assumes x: "x \<in> set xs"
    and inv: "\<And>y s r s'. P s \<Longrightarrow> f y s = (r, s') \<Longrightarrow> P s'"
    and bad: "\<And>s. P s \<Longrightarrow> isl (fst (f x s))"
  shows "P s \<Longrightarrow> isl (fst (for_each f xs s))"
  using x
proof (induction xs arbitrary: s)
  case Nil
  then show ?case by simp
next
  case (Cons y ys)
  obtain r1 s1 where f: "f y s = (r1, s1)" by (cases "f y s")
  show ?case
  proof (cases r1)
    case (Inl e)
    then show ?thesis using f by simp
  next
    case (Inr u)
    have P1: "P s1" using inv[OF Cons.prems(1) f] .
    show ?thesis
    proof (cases "x = y")
      case True
      then show ?thesis using bad[OF Cons.prems(1)] f Inr by simp
    next
      case False
      then have "x \<in> set ys" using Cons.prems(2) by simp
      from Cons.IH[OF P1 this] show ?thesis using f Inr by simp
    qed
  qed
qed

lemma backward_module_raises:
  assumes reg: "(h, mid m, hk) \<in> set (bwd_hooks s)"
    and bad: "\<And>s'. frame s' = frame s \<and> outerloop_switch s' = outerloop_switch s \<Longrightarrow>
                isl (fst (call_bhook hk m (grad_out b (mid m)) s'))"
  shows "isl (fst (backward_module b m s))"
proof -
  have mem: "hk \<in> set (hooks_on (bwd_hooks s) m)"
    using reg by (force simp: hooks_on_def)
  show ?thesis
    unfolding backward_module_def
  proof (rule for_each_raises[where P = "\<lambda>s'. frame s' = frame s \<and> outerloop_switch s' = outerloop_switch s", OF mem])
    fix y s0 r s'
    assume "frame s0 = frame s \<and> outerloop_switch s0 = outerloop_switch s"
      and "call_bhook y m (grad_out b (mid m)) s0 = (r, s')"
    then show "frame s' = frame s \<and> outerloop_switch s' = outerloop_switch s"
      by (cases y) (auto simp: call_bhook_def dest: hook_compute_flat_grad_frame hook_compute_m_norm_frame)
  next
    fix s0 assume "frame s0 = frame s \<and> outerloop_switch s0 = outerloop_switch s"
    then show "isl (fst (call_bhook hk m (grad_out b (mid m)) s0))" using bad by blast
  qed simp
qed

lemma run_pass_raises:
  assumes m: "m \<in> set (model s)"
    and reg: "(h, mid m, hk) \<in> set (bwd_hooks s)"
    and bad: "\<And>s'. outerloop_switch s' = outerloop_switch s \<Longrightarrow>
                isl (fst (call_bhook hk m (grad_out b (mid m)) s'))"
  shows "isl (fst (run_pass b s))"
proof -
  let ?s0 = "s\<lparr>loss_calls := Suc (loss_calls s)\<rparr>"
  let ?P = "\<lambda>s'. frame s' = frame s \<and> outerloop_switch s' = outerloop_switch s"
  have P0: "?P ?s0" by (simp add: frame_def)
  obtain r1 s1 where fw: "for_each (forward_module b) (model ?s0) ?s0 = (r1, s1)"
    by (cases "for_each (forward_module b) (model ?s0) ?s0")
  have P1: "?P s1" using for_each_frame[OF _ fw] forward_module_frame P0 by simp
  show ?thesis
  proof (cases r1)
    case (Inl e)
    then show ?thesis using fw by (simp add: run_pass_def Let_def)
  next
    case (Inr u)
    have ms: "model s1 = model s" and bh: "bwd_hooks s1 = bwd_hooks s"
      using P1 by (simp_all add: frame_def)
    have "isl (fst (for_each (backward_module b) (rev (model s1)) s1))"
    proof (rule for_each_raises[where P = ?P and x = m])
      show "m \<in> set (rev (model s1))" using m ms by simp
    next
      fix y s0 r s' assume "?P s0" "backward_module b y s0 = (r, s')"
      then show "?P s'" using backward_module_frame by metis
    next
      fix s0 assume p: "?P s0"
      then have "(h, mid m, hk) \<in> set (bwd_hooks s0)" using reg by (simp add: frame_def)
      then show "isl (fst (backward_module b m s0))"
        using bad p by (intro backward_module_raises) auto
    next
      show "?P s1" using P1 .
    qed
    then show ?thesis using fw Inr by (simp add: run_pass_def Let_def)
  qed
qed

lemma add_hooks_registers:
  "m \<in> set ms \<Longrightarrow> \<exists>h. (h, mid m, hg) \<in> set (bwd_hooks (snd (add_hooks hx hg ms s)))"
proof (induction ms arbitrary: s)
  case Nil
  then show ?case by simp
next
  case (Cons a ms)
  let ?s1 = "s\<lparr>fwd_pre_hooks := fwd_pre_hooks s @ [(next_handle s, mid a, hx)],
                 bwd_hooks := bwd_hooks s @ [(Suc (next_handle s), mid a, hg)],
                 next_handle := Suc (Suc (next_handle s))\<rparr>"
  from add_hooks_result[of hx hg ms ?s1] obtain bl where
    b: "bwd_hooks (snd (add_hooks hx hg ms ?s1)) = bwd_hooks ?s1 @ bl" by blast
  show ?case
  proof (cases "m = a")
    case True
    then show ?thesis using b by (auto simp: Let_def)
  next
    case False
    then have "m \<in> set ms" using Cons.prems by simp
    from Cons.IH[OF this, of ?s1] show ?thesis by (simp add: Let_def)
  qed
qed

lemma add_hooks_frame:
  "model (snd (add_hooks hx hg ms s)) = model s \<and> dataloader (snd (add_hooks hx hg ms s)) = dataloader s
   \<and> mods (snd (add_hooks hx hg ms s)) = mods s \<and> p_pos (snd (add_hooks hx hg ms s)) = p_pos s"
  by (induction ms arbitrary: s) (simp_all add: Let_def)

lemma get_matrix_raises:
  assumes m: "m \<in> set (mods s)" "m \<in> set (model s)" and c: "mod_class m \<noteq> ''Linear''"
    and ne: "batches (dataloader s) \<noteq> []"
  shows "isl (fst (get_matrix s))"
proof -
  let ?s1 = "attach_hooks Hook_savex_io Hook_compute_flat_grad s"
  obtain h where h: "(h, mid m, Hook_compute_flat_grad) \<in> set (bwd_hooks ?s1)"
    using add_hooks_registers[OF m(1), of Hook_compute_flat_grad Hook_savex_io s]
    by (auto simp: attach_hooks_def Let_def)
  have fr: "model ?s1 = model s" "dataloader ?s1 = dataloader s"
    using add_hooks_frame[of Hook_savex_io Hook_compute_flat_grad "mods s" s]
    by (simp_all add: attach_hooks_def Let_def)
  let ?s2 = "gram_init ?s1"
  have fr2: "frame ?s2 = frame ?s1" by (simp add: gram_init_def frame_def Let_def)
  obtain b rest where bl: "batches (dataloader s) = b # rest" using ne by (cases "batches (dataloader s)") auto
  have loop: "isl (fst (outer_loop 0 (b # rest) ?s2))"
  proof -
    let ?s3 = "?s2\<lparr>outerloop_switch := Some True\<rparr>"
    obtain r1 s4 where p: "run_pass b ?s3 = (r1, s4)" by (cases "run_pass b ?s3")
    have f4: "frame s4 = frame ?s1" using run_pass_frame[OF p] fr2 by (simp add: frame_def)
    show ?thesis
    proof (cases r1)
      case (Inl e)
      then show ?thesis using p by simp
    next
      case (Inr u)
      let ?s5 = "s4\<lparr>outerloop_switch := Some False, e_inner := Some 0\<rparr>"
      have dl: "batches (dataloader s4) = b # rest" using f4 fr bl by (simp add: frame_def)
      have "isl (fst (run_pass b ?s5))"
      proof (rule run_pass_raises[where m = m and h = h and hk = Hook_compute_flat_grad])
        show "m \<in> set (model ?s5)" using f4 fr m by (simp add: frame_def)
        show "(h, mid m, Hook_compute_flat_grad) \<in> set (bwd_hooks ?s5)" using f4 h by (simp add: frame_def)
        fix s' :: l2loss assume "outerloop_switch s' = outerloop_switch ?s5"
        then show "isl (fst (call_bhook Hook_compute_flat_grad m (grad_out b (mid m)) s'))"
          using c by (simp add: call_bhook_def hook_compute_flat_grad_unsupported)
      qed
      then obtain e s6 where "run_pass b ?s5 = (Inl e, s6)"
        by (cases "run_pass b ?s5"; cases "fst (run_pass b ?s5)") auto
      then have "isl (fst (inner_loop 0 (targets_size b) 0 b (batches (dataloader s4)) ?s5))"
        using dl by simp
      then obtain e' s7 where "inner_loop 0 (targets_size b) 0 b (batches (dataloader s4)) ?s5 = (Inl e', s7)"
        by (cases "inner_loop 0 (targets_size b) 0 b (batches (dataloader s4)) ?s5";
            cases "fst (inner_loop 0 (targets_size b) 0 b (batches (dataloader s4)) ?s5)") auto
      then show ?thesis using p Inr by simp
    qed
  qed
  then obtain e s8 where "outer_loop 0 (b # rest) ?s2 = (Inl e, s8)"
    by (cases "outer_loop 0 (b # rest) ?s2"; cases "fst (outer_loop 0 (b # rest) ?s2)") auto
  then show ?thesis using bl fr by (simp add: get_matrix_def Let_def)
qed

lemma implicit_m_norm_raises:
  assumes m: "m \<in> set (mods s)" "m \<in> set (model s)" and c: "mod_class m \<noteq> ''Linear''"
    and ne: "batches (dataloader s) \<noteq> []"
  shows "isl (fst (implicit_m_norm v s))"
proof -
  let ?s1 = "attach_hooks Hook_savex Hook_compute_m_norm s"
  obtain h where h: "(h, mid m, Hook_compute_m_norm) \<in> set (bwd_hooks ?s1)"
    using add_hooks_registers[OF m(1), of Hook_compute_m_norm Hook_savex s]
    by (auto simp: attach_hooks_def Let_def)
  have fr: "model ?s1 = model s" "dataloader ?s1 = dataloader s"
    using add_hooks_frame[of Hook_savex Hook_compute_m_norm "mods s" s]
    by (simp_all add: attach_hooks_def Let_def)
  let ?s2 = "m_norm_init ?s1"
  obtain b rest where bl: "batches (dataloader s) = b # rest" using ne by (cases "batches (dataloader s)") auto
  let ?bs = "batch_size (dataloader ?s1)"
  let ?s3 = "?s2\<lparr>c_buf := Some (slice 0 (0 + ?bs) v)\<rparr>"
  have "isl (fst (run_pass b ?s3))"
  proof (rule run_pass_raises[where m = m and h = h and hk = Hook_compute_m_norm])
    show "m \<in> set (model ?s3)" using fr m by (simp add: m_norm_init_def)
    show "(h, mid m, Hook_compute_m_norm) \<in> set (bwd_hooks ?s3)" using h by (simp add: m_norm_init_def)
    fix s' :: l2loss
    show "isl (fst (call_bhook Hook_compute_m_norm m (grad_out b (mid m)) s'))"
      using c by (simp add: call_bhook_def hook_compute_m_norm_unsupported)
  qed
  then obtain e s6 where "run_pass b ?s3 = (Inl e, s6)"
    by (cases "run_pass b ?s3"; cases "fst (run_pass b ?s3)") auto
  then have "m_norm_loop v ?bs 0 (b # rest) ?s2 = (Inl e, s6)" by simp
  then show ?thesis using bl fr by (simp add: implicit_m_norm_def Let_def)
qed

section \<open>Evaluating the queries\<close>

text \<open>
  The square root of \<^const>\<open>euclid_norm\<close> is not computed; the loop of \<^verbatim>\<open>implicit_m_norm\<close>
  is evaluated on its own and the result of the query read off from it.
\<close>

lemma implicit_m_norm_raised:
  assumes "model_parameters (model s) \<noteq> []"
    and "fst (m_norm_loop v (batch_size (dataloader s)) 0 (batches (dataloader s))
          (m_norm_init (attach_hooks Hook_savex Hook_compute_m_norm s))) = Inl e"
  shows "implicit_m_norm v s =
          (Inl e, snd (m_norm_loop v (batch_size (dataloader s)) 0 (batches (dataloader s))
            (m_norm_init (attach_hooks Hook_savex Hook_compute_m_norm s))))"
proof -
  have fr: "model (attach_hooks Hook_savex Hook_compute_m_norm s) = model s"
    "dataloader (attach_hooks Hook_savex Hook_compute_m_norm s) = dataloader s"
    using add_hooks_frame[of Hook_savex Hook_compute_m_norm "mods s" s]
    by (simp_all add: attach_hooks_def Let_def)
  show ?thesis
    using assms
    by (cases "m_norm_loop v (batch_size (dataloader s)) 0 (batches (dataloader s))
          (m_norm_init (attach_hooks Hook_savex Hook_compute_m_norm s))")
       (simp add: implicit_m_norm_def Let_def fr)
qed

lemma implicit_m_norm_returned:
  assumes "model_parameters (model s) \<noteq> []"
    and "fst (m_norm_loop v (batch_size (dataloader s)) 0 (batches (dataloader s))
          (m_norm_init (attach_hooks Hook_savex Hook_compute_m_norm s))) = Inr ()"
  shows "implicit_m_norm v s =
          m_norm_finish (snd (m_norm_loop v (batch_size (dataloader s)) 0 (batches (dataloader s))
            (m_norm_init (attach_hooks Hook_savex Hook_compute_m_norm s))))"
proof -
  have fr: "model (attach_hooks Hook_savex Hook_compute_m_norm s) = model s"
    "dataloader (attach_hooks Hook_savex Hook_compute_m_norm s) = dataloader s"
    using add_hooks_frame[of Hook_savex Hook_compute_m_norm "mods s" s]
    by (simp_all add: attach_hooks_def Let_def)
  show ?thesis
    using assms
    by (cases "m_norm_loop v (batch_size (dataloader s)) 0 (batches (dataloader s))
          (m_norm_init (attach_hooks Hook_savex Hook_compute_m_norm s))")
       (simp add: implicit_m_norm_def Let_def fr)
qed

section \<open>Convolutional layers and other layers without a formula\<close>


text \<open>
  Claim C8. Let \<open>m\<close> be a layer whose class is not \<^verbatim>\<open>Linear\<close>. Its backward hook of
  \<^verbatim>\<open>implicit_m_norm\<close> raises in every state, and its backward hook of \<^verbatim>\<open>get_matrix\<close> raises
  in every state of the inner pass; neither changes the object, so nothing is accumulated
  for the layer, and with the layer's buffers and offset present the error is
  NotImplementedError. If the layer is retained and belongs to the model, and the loader
  yields a batch, both queries end by raising: no value is returned.
\<close>

theorem unsupported_layer_raises:
  assumes "mod_class m \<noteq> ''Linear''"
  shows "(\<forall>g s. isl (fst (hook_compute_m_norm m g s)) \<and> snd (hook_compute_m_norm m g s) = s)
     \<and> (\<forall>g s. outerloop_switch s = Some False \<longrightarrow>
            isl (fst (hook_compute_flat_grad m g s)) \<and> snd (hook_compute_flat_grad m g s) = s)
     \<and> (\<forall>g s. xs_buf s (mid m) \<noteq> None \<and> p_pos s (mid m) \<noteq> None \<longrightarrow>
            hook_compute_m_norm m g s = (Inl NotImplementedError, s))
     \<and> (\<forall>g s. outerloop_switch s = Some False \<and> gy_outer s (mid m) \<noteq> None
              \<and> x_outer s (mid m) \<noteq> None \<and> x_inner s (mid m) \<noteq> None \<and> p_pos s (mid m) \<noteq> None \<longrightarrow>
            hook_compute_flat_grad m g s = (Inl NotImplementedError, s))
     \<and> (\<forall>v s. m \<in> set (mods s) \<and> m \<in> set (model s) \<and> batches (dataloader s) \<noteq> [] \<longrightarrow>
            isl (fst (get_matrix s)) \<and> isl (fst (implicit_m_norm v s)))"
proof -
  have a: "\<forall>g s. isl (fst (hook_compute_m_norm m g s)) \<and> snd (hook_compute_m_norm m g s) = s"
    using assms by (simp add: hook_compute_m_norm_def split: option.splits)
  have b: "\<forall>g s. outerloop_switch s = Some False \<longrightarrow>
            isl (fst (hook_compute_flat_grad m g s)) \<and> snd (hook_compute_flat_grad m g s) = s"
    using assms by (simp add: hook_compute_flat_grad_def split: option.splits)
  have c: "\<forall>g s. xs_buf s (mid m) \<noteq> None \<and> p_pos s (mid m) \<noteq> None \<longrightarrow>
            hook_compute_m_norm m g s = (Inl NotImplementedError, s)"
    using assms by (auto simp: hook_compute_m_norm_def)
  have d: "\<forall>g s. outerloop_switch s = Some False \<and> gy_outer s (mid m) \<noteq> None
              \<and> x_outer s (mid m) \<noteq> None \<and> x_inner s (mid m) \<noteq> None \<and> p_pos s (mid m) \<noteq> None \<longrightarrow>
            hook_compute_flat_grad m g s = (Inl NotImplementedError, s)"
    using assms by (auto simp: hook_compute_flat_grad_def)
  have e: "\<forall>v s. m \<in> set (mods s) \<and> m \<in> set (model s) \<and> batches (dataloader s) \<noteq> [] \<longrightarrow>
            isl (fst (get_matrix s)) \<and> isl (fst (implicit_m_norm v s))"
    using assms get_matrix_raises implicit_m_norm_raises by blast
  show ?thesis using a b c d e by blast
qed

theorem unsupported_layer_raises_witness:
  "mod_class ex_conv \<noteq> ''Linear''
   \<and> hook_compute_m_norm ex_conv [[1]] ex_conv_mid_m_norm = (Inl NotImplementedError, ex_conv_mid_m_norm)
   \<and> hook_compute_flat_grad ex_conv [[1]] ex_conv_mid_gram = (Inl NotImplementedError, ex_conv_mid_gram)
   \<and> isl (fst (get_matrix ex_convgen)) \<and> isl (fst (implicit_m_norm [1] ex_convgen))"
proof -
  have c: "mod_class ex_conv \<noteq> ''Linear''" by (simp add: ex_conv_def)
  have m: "mid ex_conv = 2" by (simp add: ex_conv_def)
  have s1: "xs_buf ex_conv_mid_m_norm (mid ex_conv) \<noteq> None \<and> p_pos ex_conv_mid_m_norm (mid ex_conv) \<noteq> None"
    by (simp add: m ex_conv_mid_m_norm_def ex_convgen_def)
  have s2: "outerloop_switch ex_conv_mid_gram = Some False \<and> gy_outer ex_conv_mid_gram (mid ex_conv) \<noteq> None
      \<and> x_outer ex_conv_mid_gram (mid ex_conv) \<noteq> None \<and> x_inner ex_conv_mid_gram (mid ex_conv) \<noteq> None
      \<and> p_pos ex_conv_mid_gram (mid ex_conv) \<noteq> None"
    by (simp add: m ex_conv_mid_gram_def ex_convgen_def)
  have s3: "ex_conv \<in> set (mods ex_convgen) \<and> ex_conv \<in> set (model ex_convgen)
      \<and> batches (dataloader ex_convgen) \<noteq> []"
    by (simp add: ex_convgen_def ex_convnet_def ex_loader1_def)
  note t = unsupported_layer_raises[OF c]
  from t s1 have "hook_compute_m_norm ex_conv [[1]] ex_conv_mid_m_norm = (Inl NotImplementedError, ex_conv_mid_m_norm)"
    by blast
  moreover from t s2 have "hook_compute_flat_grad ex_conv [[1]] ex_conv_mid_gram = (Inl NotImplementedError, ex_conv_mid_gram)"
    by blast
  moreover from t s3 have "isl (fst (get_matrix ex_convgen)) \<and> isl (fst (implicit_m_norm [1] ex_convgen))"
    by blast
  ultimately show ?thesis using c by blast
qed




section \<open>Hook registrations at the end of a query\<close>

lemma attach_hooks_tables:
  "\<exists>fl bl. fwd_pre_hooks (attach_hooks hx hg s) = fwd_pre_hooks s @ fl
     \<and> bwd_hooks (attach_hooks hx hg s) = bwd_hooks s @ bl
     \<and> fst ` set fl \<subseteq> set (fst (add_hooks hx hg (mods s) s))
     \<and> fst ` set bl \<subseteq> set (fst (add_hooks hx hg (mods s) s))
     \<and> handles (attach_hooks hx hg s) = handles s @ fst (add_hooks hx hg (mods s) s)"
  using add_hooks_result[of hx hg "mods s" s]
  by (auto simp: attach_hooks_def Let_def)

lemma removed_after:
  assumes t: "fwd_pre_hooks s3 = fwd_pre_hooks s @ fl" "bwd_hooks s3 = bwd_hooks s @ bl"
      "fst ` set fl \<subseteq> set new" "fst ` set bl \<subseteq> set new" "handles s3 = handles s @ new"
  shows "handles (remove_handles (handles s3) s3) = handles s @ new
     \<and> list_all (\<lambda>h. \<not> registered (remove_handles (handles s3) s3) h) (handles s @ new)
     \<and> fwd_pre_hooks (remove_handles (handles s3) s3) =
         filter (\<lambda>e. fst e \<notin> set (handles s @ new)) (fwd_pre_hooks s)
     \<and> bwd_hooks (remove_handles (handles s3) s3) =
         filter (\<lambda>e. fst e \<notin> set (handles s @ new)) (bwd_hooks s)"
proof -
  note r = remove_handles_tables[of "handles s3" s3]
  have f: "filter (\<lambda>e. fst e \<notin> set (handles s @ new)) fl = []"
    using t(3) by (auto simp: filter_empty_conv)
  have b: "filter (\<lambda>e. fst e \<notin> set (handles s @ new)) bl = []"
    using t(4) by (auto simp: filter_empty_conv)
  have 1: "fwd_pre_hooks (remove_handles (handles s3) s3) =
         filter (\<lambda>e. fst e \<notin> set (handles s @ new)) (fwd_pre_hooks s)"
    using r t f by simp
  have 2: "bwd_hooks (remove_handles (handles s3) s3) =
         filter (\<lambda>e. fst e \<notin> set (handles s @ new)) (bwd_hooks s)"
    using r t b by simp
  have 3: "handles (remove_handles (handles s3) s3) = handles s @ new" using r t by simp
  have 4: "list_all (\<lambda>h. \<not> registered (remove_handles (handles s3) s3) h) (handles s @ new)"
    unfolding registered_def 1 2 by (auto simp: list_all_iff)
  show ?thesis using 1 2 3 4 by simp
qed

lemma get_matrix_returned:
  assumes "fst (get_matrix s) = Inr G"
  shows "\<exists>s3. frame s3 = frame (attach_hooks Hook_savex_io Hook_compute_flat_grad s)
      \<and> snd (get_matrix s) = remove_handles (handles s3)
           (s3\<lparr>e_inner := None, e_outer := None, G_buf := None,
               x_inner := Map.empty, x_outer := Map.empty\<rparr>)"
proof -
  let ?s1 = "attach_hooks Hook_savex_io Hook_compute_flat_grad s"
  have p: "model_parameters (model ?s1) \<noteq> []"
    using assms by (auto simp: get_matrix_def Let_def split: if_splits)
  obtain r3 s3 where l: "outer_loop 0 (batches (dataloader ?s1)) (gram_init ?s1) = (r3, s3)"
    by (cases "outer_loop 0 (batches (dataloader ?s1)) (gram_init ?s1)")
  have fr: "frame s3 = frame ?s1"
    using outer_loop_frame[OF l] by (simp add: gram_init_def frame_def Let_def)
  have r3: "\<exists>u. r3 = Inr u" using assms p l by (cases r3) (auto simp: get_matrix_def Let_def)
  then have g: "get_matrix s = get_matrix_finish s3"
    using p l by (auto simp: get_matrix_def Let_def)
  then have "snd (get_matrix s) = remove_handles (handles s3)
           (s3\<lparr>e_inner := None, e_outer := None, G_buf := None,
               x_inner := Map.empty, x_outer := Map.empty\<rparr>)"
    using assms by (auto simp: get_matrix_finish_def split: option.splits if_splits)
  then show ?thesis using fr by blast
qed

lemma implicit_m_norm_returned_state:
  assumes "fst (implicit_m_norm v s) = Inr r"
  shows "\<exists>s3. frame s3 = frame (attach_hooks Hook_savex Hook_compute_m_norm s)
      \<and> snd (implicit_m_norm v s) = remove_handles (handles s3) (s3\<lparr>cTv := None, xs_buf := Map.empty\<rparr>)"
proof -
  let ?s1 = "attach_hooks Hook_savex Hook_compute_m_norm s"
  have p: "model_parameters (model ?s1) \<noteq> []"
    using assms by (auto simp: implicit_m_norm_def Let_def split: if_splits)
  obtain r3 s3 where l: "m_norm_loop v (batch_size (dataloader ?s1)) 0 (batches (dataloader ?s1)) (m_norm_init ?s1) = (r3, s3)"
    by (cases "m_norm_loop v (batch_size (dataloader ?s1)) 0 (batches (dataloader ?s1)) (m_norm_init ?s1)")
  have fr: "frame s3 = frame ?s1"
    using m_norm_loop_frame[OF l] by (simp add: m_norm_init_def frame_def)
  have r3: "\<exists>u. r3 = Inr u" using assms p l by (cases r3) (auto simp: implicit_m_norm_def Let_def)
  then have g: "implicit_m_norm v s = m_norm_finish s3"
    using p l by (auto simp: implicit_m_norm_def Let_def)
  then have "snd (implicit_m_norm v s) = remove_handles (handles s3) (s3\<lparr>cTv := None, xs_buf := Map.empty\<rparr>)"
    using assms by (auto simp: m_norm_finish_def split: option.splits)
  then show ?thesis using fr by blast
qed

lemma removed_when_done:
  assumes fr: "frame s3 = frame (attach_hooks hx hg s)"
    and upd: "handles s4 = handles s3" "fwd_pre_hooks s4 = fwd_pre_hooks s3" "bwd_hooks s4 = bwd_hooks s3"
  shows "handles (remove_handles (handles s3) s4) = handles s @ fst (add_hooks hx hg (mods s) s)
     \<and> list_all (\<lambda>h. \<not> registered (remove_handles (handles s3) s4) h)
          (handles (remove_handles (handles s3) s4))
     \<and> fwd_pre_hooks (remove_handles (handles s3) s4) =
         filter (\<lambda>e. fst e \<notin> set (handles (remove_handles (handles s3) s4))) (fwd_pre_hooks s)
     \<and> bwd_hooks (remove_handles (handles s3) s4) =
         filter (\<lambda>e. fst e \<notin> set (handles (remove_handles (handles s3) s4))) (bwd_hooks s)"
proof -
  from attach_hooks_tables[of hx hg s] obtain fl bl where
    t: "fwd_pre_hooks (attach_hooks hx hg s) = fwd_pre_hooks s @ fl"
      "bwd_hooks (attach_hooks hx hg s) = bwd_hooks s @ bl"
      "fst ` set fl \<subseteq> set (fst (add_hooks hx hg (mods s) s))"
      "fst ` set bl \<subseteq> set (fst (add_hooks hx hg (mods s) s))"
      "handles (attach_hooks hx hg s) = handles s @ fst (add_hooks hx hg (mods s) s)"
    by blast
  have e: "fwd_pre_hooks s4 = fwd_pre_hooks s @ fl" "bwd_hooks s4 = bwd_hooks s @ bl"
     "handles s4 = handles s @ fst (add_hooks hx hg (mods s) s)"
    using fr upd t by (simp_all add: frame_def)
  have h: "handles s3 = handles s4" using upd by simp
  show ?thesis
    unfolding h using removed_after[OF e(1) e(2) t(3) t(4) e(3)] by simp
qed

lemma add_hooks_new:
  "distinct (fst (add_hooks hx hg ms s))
   \<and> (\<forall>h \<in> set (fst (add_hooks hx hg ms s)). next_handle s \<le> h
          \<and> registered (snd (add_hooks hx hg ms s)) h)"
proof (induction ms arbitrary: s)
  case Nil
  then show ?case by simp
next
  case (Cons m ms)
  let ?s1 = "s\<lparr>fwd_pre_hooks := fwd_pre_hooks s @ [(next_handle s, mid m, hx)],
                 bwd_hooks := bwd_hooks s @ [(Suc (next_handle s), mid m, hg)],
                 next_handle := Suc (Suc (next_handle s))\<rparr>"
  let ?r = "add_hooks hx hg ms ?s1"
  have ih: "distinct (fst ?r)"
    "\<forall>h \<in> set (fst ?r). Suc (Suc (next_handle s)) \<le> h \<and> registered (snd ?r) h"
    using Cons.IH[of ?s1] by simp_all
  from add_hooks_result[of hx hg ms ?s1] obtain fl bl where
    t: "fwd_pre_hooks (snd ?r) = fwd_pre_hooks ?s1 @ fl" "bwd_hooks (snd ?r) = bwd_hooks ?s1 @ bl"
    by blast
  have e: "add_hooks hx hg (m # ms) s = (next_handle s # Suc (next_handle s) # fst ?r, snd ?r)"
    by (simp add: Let_def)
  have r1: "registered (snd ?r) (next_handle s)" "registered (snd ?r) (Suc (next_handle s))"
    using t by (simp_all add: registered_def)
  have d: "next_handle s \<notin> set (fst ?r)" "Suc (next_handle s) \<notin> set (fst ?r)"
    using ih(2) by auto
  show ?case unfolding e using ih d r1 by auto
qed

lemma attach_hooks_new:
  "list_all (registered (attach_hooks hx hg s)) (fst (add_hooks hx hg (mods s) s))"
  using add_hooks_new[of hx hg "mods s" s]
  by (auto simp: attach_hooks_def Let_def list_all_iff registered_def)

lemma count_list_distinct: "distinct xs \<Longrightarrow> x \<in> set xs \<Longrightarrow> count_list xs x = 1"
  by (induction xs) (auto simp: count_list_0_iff)

lemma fresh_count:
  assumes "handles_fresh s" "h \<in> set (fst (add_hooks hx hg (mods s) s))"
  shows "count_list (handles s @ fst (add_hooks hx hg (mods s) s)) h = 1"
proof -
  have n: "next_handle s \<le> h" and d: "distinct (fst (add_hooks hx hg (mods s) s))"
    using add_hooks_new[of hx hg "mods s" s] assms(2) by auto
  have "h \<notin> set (handles s)" using assms(1) n by (auto simp: handles_fresh_def list_all_iff)
  then have "count_list (handles s) h = 0" by (simp add: count_list_0_iff)
  moreover have "count_list (fst (add_hooks hx hg (mods s) s)) h = 1"
    using d assms(2) by (rule count_list_distinct)
  ultimately show ?thesis by simp
qed

lemma fresh_tables_kept:
  assumes "handles_fresh s"
  shows "filter (\<lambda>e. fst e \<notin> set (handles s @ fst (add_hooks hx hg (mods s) s))) (fwd_pre_hooks s)
           = filter (\<lambda>e. fst e \<notin> set (handles s)) (fwd_pre_hooks s)"
    and "filter (\<lambda>e. fst e \<notin> set (handles s @ fst (add_hooks hx hg (mods s) s))) (bwd_hooks s)
           = filter (\<lambda>e. fst e \<notin> set (handles s)) (bwd_hooks s)"
proof -
  have n: "\<forall>h \<in> set (fst (add_hooks hx hg (mods s) s)). next_handle s \<le> h"
    using add_hooks_new[of hx hg "mods s" s] by blast
  show "filter (\<lambda>e. fst e \<notin> set (handles s @ fst (add_hooks hx hg (mods s) s))) (fwd_pre_hooks s)
           = filter (\<lambda>e. fst e \<notin> set (handles s)) (fwd_pre_hooks s)"
    using assms n by (intro filter_cong) (fastforce simp: handles_fresh_def list_all_iff)+
  show "filter (\<lambda>e. fst e \<notin> set (handles s @ fst (add_hooks hx hg (mods s) s))) (bwd_hooks s)
           = filter (\<lambda>e. fst e \<notin> set (handles s)) (bwd_hooks s)"
    using assms n by (intro filter_cong) (fastforce simp: handles_fresh_def list_all_iff)+
qed

lemma get_matrix_raised_frame:
  assumes "isl (fst (get_matrix s))"
  shows "frame (snd (get_matrix s)) = frame (attach_hooks Hook_savex_io Hook_compute_flat_grad s)"
proof -
  let ?s1 = "attach_hooks Hook_savex_io Hook_compute_flat_grad s"
  show ?thesis
  proof (cases "model_parameters (model ?s1) = []")
    case True
    then show ?thesis by (simp add: get_matrix_def Let_def)
  next
    case False
    obtain r3 s3 where l: "outer_loop 0 (batches (dataloader ?s1)) (gram_init ?s1) = (r3, s3)"
      by (cases "outer_loop 0 (batches (dataloader ?s1)) (gram_init ?s1)")
    have fr: "frame s3 = frame ?s1"
      using outer_loop_frame[OF l] by (simp add: gram_init_def frame_def Let_def)
    show ?thesis
    proof (cases r3)
      case (Inl e)
      then show ?thesis using False l fr by (simp add: get_matrix_def Let_def)
    next
      case (Inr u)
      then have g: "get_matrix s = get_matrix_finish s3"
        using False l by (simp add: get_matrix_def Let_def)
      have "frame (snd (get_matrix_finish s3)) = frame s3"
        using assms unfolding g
        by (auto simp: get_matrix_finish_def frame_def split: option.splits if_splits)
      then show ?thesis using g fr by simp
    qed
  qed
qed

lemma implicit_m_norm_raised_frame:
  assumes "isl (fst (implicit_m_norm v s))"
  shows "frame (snd (implicit_m_norm v s)) = frame (attach_hooks Hook_savex Hook_compute_m_norm s)"
proof -
  let ?s1 = "attach_hooks Hook_savex Hook_compute_m_norm s"
  show ?thesis
  proof (cases "model_parameters (model ?s1) = []")
    case True
    then show ?thesis by (simp add: implicit_m_norm_def Let_def)
  next
    case False
    obtain r3 s3 where l: "m_norm_loop v (batch_size (dataloader ?s1)) 0 (batches (dataloader ?s1))
        (m_norm_init ?s1) = (r3, s3)"
      by (cases "m_norm_loop v (batch_size (dataloader ?s1)) 0 (batches (dataloader ?s1))
        (m_norm_init ?s1)")
    have fr: "frame s3 = frame ?s1"
      using m_norm_loop_frame[OF l] by (simp add: m_norm_init_def frame_def)
    show ?thesis
    proof (cases r3)
      case (Inl e)
      then show ?thesis using False l fr by (simp add: implicit_m_norm_def Let_def)
    next
      case (Inr u)
      then have g: "implicit_m_norm v s = m_norm_finish s3"
        using False l by (simp add: implicit_m_norm_def Let_def)
      have "frame (snd (m_norm_finish s3)) = frame s3"
        using assms unfolding g
        by (auto simp: m_norm_finish_def frame_def split: option.splits)
      then show ?thesis using g fr by simp
    qed
  qed
qed

lemma add_hooks_next: "next_handle s \<le> next_handle (snd (add_hooks hx hg ms s))"
proof (induction ms arbitrary: s)
  case Nil
  then show ?case by simp
next
  case (Cons m ms)
  let ?s1 = "s\<lparr>fwd_pre_hooks := fwd_pre_hooks s @ [(next_handle s, mid m, hx)],
                 bwd_hooks := bwd_hooks s @ [(Suc (next_handle s), mid m, hg)],
                 next_handle := Suc (Suc (next_handle s))\<rparr>"
  have "Suc (Suc (next_handle s)) \<le> next_handle (snd (add_hooks hx hg ms ?s1))"
    using Cons.IH[of ?s1] by simp
  then show ?case by (simp add: Let_def)
qed

lemma add_hooks_below:
  "\<forall>h \<in> set (fst (add_hooks hx hg ms s)). h < next_handle (snd (add_hooks hx hg ms s))"
proof (induction ms arbitrary: s)
  case Nil
  then show ?case by simp
next
  case (Cons m ms)
  let ?s1 = "s\<lparr>fwd_pre_hooks := fwd_pre_hooks s @ [(next_handle s, mid m, hx)],
                 bwd_hooks := bwd_hooks s @ [(Suc (next_handle s), mid m, hg)],
                 next_handle := Suc (Suc (next_handle s))\<rparr>"
  have n: "Suc (Suc (next_handle s)) \<le> next_handle (snd (add_hooks hx hg ms ?s1))"
    using add_hooks_next[of ?s1 hx hg ms] by simp
  show ?case using Cons.IH[of ?s1] n by (auto simp: Let_def)
qed

lemma remove_handles_next: "next_handle (remove_handles hs s) = next_handle s"
  by (induction hs arbitrary: s) (simp_all add: remove_handles_def remove_handle_def)

lemma removed_fresh:
  assumes fr: "frame s3 = frame (attach_hooks hx hg s)" and f: "handles_fresh s"
    and t: "handles s' = handles s @ fst (add_hooks hx hg (mods s) s)"
      "fwd_pre_hooks s' = filter (\<lambda>e. fst e \<notin> set (handles s')) (fwd_pre_hooks s)"
      "bwd_hooks s' = filter (\<lambda>e. fst e \<notin> set (handles s')) (bwd_hooks s)"
      "next_handle s' = next_handle s3"
  shows "handles_fresh s'"
proof -
  let ?r = "add_hooks hx hg (mods s) s"
  have n3: "next_handle s3 = next_handle (snd ?r)"
    using fr by (simp add: frame_def attach_hooks_def Let_def)
  have le: "next_handle s \<le> next_handle s'" using add_hooks_next[of s hx hg "mods s"] n3 t(4) by simp
  have new: "\<forall>h \<in> set (fst ?r). h < next_handle s'" using add_hooks_below[of hx hg "mods s" s] n3 t(4) by simp
  show ?thesis
    unfolding handles_fresh_def t(1,2,3)
    using f le new by (fastforce simp: handles_fresh_def list_all_iff)
qed

lemma returned_deregistered:
  assumes fr: "frame s3 = frame (attach_hooks hx hg s)"
    and upd: "handles s4 = handles s3" "fwd_pre_hooks s4 = fwd_pre_hooks s3"
      "bwd_hooks s4 = bwd_hooks s3" "next_handle s4 = next_handle s3"
  shows "deregistered_once hx hg s (remove_handles (handles s3) s4)"
proof -
  let ?s' = "remove_handles (handles s3) s4"
  let ?new = "fst (add_hooks hx hg (mods s) s)"
  note r = removed_when_done[OF fr upd(1,2,3)]
  have h: "handles ?s' = handles s @ ?new" using r by blast
  have nh: "next_handle ?s' = next_handle s3"
    using upd(4) by (simp add: remove_handles_next)
  have fresh: "handles_fresh s \<Longrightarrow>
        list_all (\<lambda>h. count_list (handles ?s') h = 1) ?new
      \<and> fwd_pre_hooks ?s' = filter (\<lambda>e. fst e \<notin> set (handles s)) (fwd_pre_hooks s)
      \<and> bwd_hooks ?s' = filter (\<lambda>e. fst e \<notin> set (handles s)) (bwd_hooks s)
      \<and> handles_fresh ?s'"
  proof -
    assume f: "handles_fresh s"
    have c: "list_all (\<lambda>h. count_list (handles ?s') h = 1) ?new"
      unfolding h using fresh_count[OF f] by (simp add: list_all_iff)
    have k: "fwd_pre_hooks ?s' = filter (\<lambda>e. fst e \<notin> set (handles s)) (fwd_pre_hooks s)"
      "bwd_hooks ?s' = filter (\<lambda>e. fst e \<notin> set (handles s)) (bwd_hooks s)"
      using r fresh_tables_kept[OF f, of hx hg] h by simp_all
    have "handles_fresh ?s'"
      by (rule removed_fresh[OF fr f h _ _ nh]) (use r in blast)+
    then show ?thesis using c k by blast
  qed
  show ?thesis
    unfolding deregistered_once_def Let_def
    using r attach_hooks_new[of hx hg s] fresh by auto
qed

lemma raised_still_registered:
  assumes "frame s' = frame (attach_hooks hx hg s)"
  shows "still_registered hx hg s s'"
proof -
  have t: "handles s' = handles (attach_hooks hx hg s)"
    "fwd_pre_hooks s' = fwd_pre_hooks (attach_hooks hx hg s)"
    "bwd_hooks s' = bwd_hooks (attach_hooks hx hg s)"
    using assms by (simp_all add: frame_def)
  have "list_all (registered s') (fst (add_hooks hx hg (mods s) s))"
    using attach_hooks_new[of hx hg s] t by (simp add: registered_def list_all_iff)
  moreover have "handles s' = handles s @ fst (add_hooks hx hg (mods s) s)"
    using t attach_hooks_tables[of hx hg s] by auto
  ultimately show ?thesis using t by (simp add: still_registered_def Let_def)
qed

text \<open>
  Claim C5, refuted as stated. On the generator with a convolution \<^verbatim>\<open>get_matrix\<close> and
  \<^verbatim>\<open>implicit_m_norm\<close> raise NotImplementedError, and the hooks the query registered are
  still in the tables of the modules afterwards.
\<close>

theorem hooks_leak_on_error:
  "fwd_pre_hooks ex_convgen = [] \<and> bwd_hooks ex_convgen = []
   \<and> fst (get_matrix ex_convgen) = Inl NotImplementedError
   \<and> fwd_pre_hooks (snd (get_matrix ex_convgen)) = [(0, 2, Hook_savex_io), (2, 1, Hook_savex_io)]
   \<and> bwd_hooks (snd (get_matrix ex_convgen)) =
       [(1, 2, Hook_compute_flat_grad), (3, 1, Hook_compute_flat_grad)]
   \<and> fst (implicit_m_norm [1] ex_convgen) = Inl NotImplementedError
   \<and> fwd_pre_hooks (snd (implicit_m_norm [1] ex_convgen)) = [(0, 2, Hook_savex), (2, 1, Hook_savex)]
   \<and> bwd_hooks (snd (implicit_m_norm [1] ex_convgen)) =
       [(1, 2, Hook_compute_m_norm), (3, 1, Hook_compute_m_norm)]"
proof -
  have p: "model_parameters (model ex_convgen) \<noteq> []" by code_simp
  have l: "fst (m_norm_loop [1] (batch_size (dataloader ex_convgen)) 0
      (batches (dataloader ex_convgen))
      (m_norm_init (attach_hooks Hook_savex Hook_compute_m_norm ex_convgen))) =
      Inl NotImplementedError"
    by code_simp
  note i = implicit_m_norm_raised[OF p l]
  have "fwd_pre_hooks ex_convgen = [] \<and> bwd_hooks ex_convgen = []" by (simp add: ex_convgen_def)
  moreover have "fst (get_matrix ex_convgen) = Inl NotImplementedError" by code_simp
  moreover have "fwd_pre_hooks (snd (get_matrix ex_convgen)) =
      [(0, 2, Hook_savex_io), (2, 1, Hook_savex_io)]" by code_simp
  moreover have "bwd_hooks (snd (get_matrix ex_convgen)) =
      [(1, 2, Hook_compute_flat_grad), (3, 1, Hook_compute_flat_grad)]" by code_simp
  moreover have "fst (implicit_m_norm [1] ex_convgen) = Inl NotImplementedError"
    using i by simp
  moreover have "fwd_pre_hooks (snd (implicit_m_norm [1] ex_convgen)) =
      [(0, 2, Hook_savex), (2, 1, Hook_savex)]"
    unfolding i by code_simp
  moreover have "bwd_hooks (snd (implicit_m_norm [1] ex_convgen)) =
      [(1, 2, Hook_compute_m_norm), (3, 1, Hook_compute_m_norm)]"
    unfolding i by code_simp
  ultimately show ?thesis by blast
qed

text \<open>
  Claim C5, amended. When a query returns, every hook it registered has been deregistered, and
  no entry of a handle the object does not hold has been touched; with fresh handle identities
  each of the query's handles is deregistered exactly once, and the tables lose nothing but
  entries of handles the object held before. When a query raises, nothing is deregistered:
  every hook the query registered is still registered afterwards.
\<close>

theorem hooks_at_query_end:
  "(fst (get_matrix s) = Inr G \<longrightarrow>
      deregistered_once Hook_savex_io Hook_compute_flat_grad s (snd (get_matrix s)))
   \<and> (fst (get_matrix s) = Inl e \<longrightarrow>
      still_registered Hook_savex_io Hook_compute_flat_grad s (snd (get_matrix s)))
   \<and> (fst (implicit_m_norm v s) = Inr r \<longrightarrow>
      deregistered_once Hook_savex Hook_compute_m_norm s (snd (implicit_m_norm v s)))
   \<and> (fst (implicit_m_norm v s) = Inl e' \<longrightarrow>
      still_registered Hook_savex Hook_compute_m_norm s (snd (implicit_m_norm v s)))"
proof (intro conjI impI)
  assume a: "fst (get_matrix s) = Inr G"
  from get_matrix_returned[OF a] obtain s3 where
    s3: "frame s3 = frame (attach_hooks Hook_savex_io Hook_compute_flat_grad s)"
     "snd (get_matrix s) = remove_handles (handles s3)
           (s3\<lparr>e_inner := None, e_outer := None, G_buf := None,
               x_inner := Map.empty, x_outer := Map.empty\<rparr>)" by blast
  show "deregistered_once Hook_savex_io Hook_compute_flat_grad s (snd (get_matrix s))"
    unfolding s3(2) by (rule returned_deregistered[OF s3(1)]) simp_all
next
  assume "fst (get_matrix s) = Inl e"
  then have "isl (fst (get_matrix s))" by simp
  from raised_still_registered[OF get_matrix_raised_frame[OF this]]
  show "still_registered Hook_savex_io Hook_compute_flat_grad s (snd (get_matrix s))" .
next
  assume a: "fst (implicit_m_norm v s) = Inr r"
  from implicit_m_norm_returned_state[OF a] obtain s3 where
    s3: "frame s3 = frame (attach_hooks Hook_savex Hook_compute_m_norm s)"
     "snd (implicit_m_norm v s) = remove_handles (handles s3) (s3\<lparr>cTv := None, xs_buf := Map.empty\<rparr>)"
    by blast
  show "deregistered_once Hook_savex Hook_compute_m_norm s (snd (implicit_m_norm v s))"
    unfolding s3(2) by (rule returned_deregistered[OF s3(1)]) simp_all
next
  assume "fst (implicit_m_norm v s) = Inl e'"
  then have "isl (fst (implicit_m_norm v s))" by simp
  from raised_still_registered[OF implicit_m_norm_raised_frame[OF this]]
  show "still_registered Hook_savex Hook_compute_m_norm s (snd (implicit_m_norm v s))" .
qed

theorem hooks_at_query_end_witness:
  "handles_fresh ex_gen
   \<and> (\<exists>G. fst (get_matrix ex_gen) = Inr G)
   \<and> handles (snd (get_matrix ex_gen)) = [0, 1]
   \<and> count_list (handles (snd (get_matrix ex_gen))) 0 = 1
   \<and> count_list (handles (snd (get_matrix ex_gen))) 1 = 1
   \<and> fwd_pre_hooks (snd (get_matrix ex_gen)) = [] \<and> bwd_hooks (snd (get_matrix ex_gen)) = []
   \<and> (\<exists>r. fst (implicit_m_norm [1, 2, 3] ex_gen) = Inr r)
   \<and> handles (snd (implicit_m_norm [1, 2, 3] ex_gen)) = [0, 1]
   \<and> fwd_pre_hooks (snd (implicit_m_norm [1, 2, 3] ex_gen)) = []
   \<and> bwd_hooks (snd (implicit_m_norm [1, 2, 3] ex_gen)) = []
   \<and> fst (get_matrix ex_convgen) = Inl NotImplementedError
   \<and> registered (snd (get_matrix ex_convgen)) 0 \<and> registered (snd (get_matrix ex_convgen)) 3
   \<and> fst (implicit_m_norm [1] ex_convgen) = Inl NotImplementedError
   \<and> registered (snd (implicit_m_norm [1] ex_convgen)) 0
   \<and> registered (snd (implicit_m_norm [1] ex_convgen)) 3"
proof -
  have fr: "handles_fresh ex_gen" by code_simp
  have g: "fst (get_matrix ex_gen) = Inr [[2, 3, 0], [4, 8, 0], [0, 3, 0]]" by code_simp
  have p: "model_parameters (model ex_gen) \<noteq> []" by code_simp
  have l: "fst (m_norm_loop [1, 2, 3] (batch_size (dataloader ex_gen)) 0
      (batches (dataloader ex_gen))
      (m_norm_init (attach_hooks Hook_savex Hook_compute_m_norm ex_gen))) = Inr ()"
    by code_simp
  have c: "cTv (snd (m_norm_loop [1, 2, 3] (batch_size (dataloader ex_gen)) 0
      (batches (dataloader ex_gen))
      (m_norm_init (attach_hooks Hook_savex Hook_compute_m_norm ex_gen)))) = Some [4, 5, 6]"
    by code_simp
  have i: "fst (implicit_m_norm [1, 2, 3] ex_gen) = Inr (euclid_norm [4, 5, 6])"
    unfolding implicit_m_norm_returned[OF p l] by (simp add: m_norm_finish_def c)
  have e: "handles ex_gen = []" "fwd_pre_hooks ex_gen = []" "bwd_hooks ex_gen = []"
    "mods ex_gen = [ex_fc]" "next_handle ex_gen = 0"
    by (simp_all add: ex_gen_def)
  have a1: "fst (add_hooks Hook_savex_io Hook_compute_flat_grad (mods ex_gen) ex_gen) = [0, 1]"
    by (simp add: e Let_def)
  have a2: "fst (add_hooks Hook_savex Hook_compute_m_norm (mods ex_gen) ex_gen) = [0, 1]"
    by (simp add: e Let_def)
  have gc: "fst (get_matrix ex_convgen) = Inl NotImplementedError" by code_simp
  have pc: "model_parameters (model ex_convgen) \<noteq> []" by code_simp
  have lc: "fst (m_norm_loop [1] (batch_size (dataloader ex_convgen)) 0
      (batches (dataloader ex_convgen))
      (m_norm_init (attach_hooks Hook_savex Hook_compute_m_norm ex_convgen))) =
      Inl NotImplementedError"
    by code_simp
  have ic: "fst (implicit_m_norm [1] ex_convgen) = Inl NotImplementedError"
    using implicit_m_norm_raised[OF pc lc] by simp
  have ec: "mods ex_convgen = [ex_conv, ex_fc]" "next_handle ex_convgen = 0"
    by (simp_all add: ex_convgen_def)
  have a3: "fst (add_hooks Hook_savex_io Hook_compute_flat_grad (mods ex_convgen) ex_convgen) =
      [0, 1, 2, 3]"
    by (simp add: ec Let_def eval_nat_numeral)
  have a4: "fst (add_hooks Hook_savex Hook_compute_m_norm (mods ex_convgen) ex_convgen) =
      [0, 1, 2, 3]"
    by (simp add: ec Let_def eval_nat_numeral)
  note t1 = hooks_at_query_end[of ex_gen "[[2, 3, 0], [4, 8, 0], [0, 3, 0]]" AssertionError
      "[1, 2, 3]" "euclid_norm [4, 5, 6]" AssertionError]
  note t2 = hooks_at_query_end[of ex_convgen "[]" NotImplementedError "[1]" 0 NotImplementedError]
  from t1 g have d1: "deregistered_once Hook_savex_io Hook_compute_flat_grad ex_gen
      (snd (get_matrix ex_gen))" by blast
  from t1 i have d2: "deregistered_once Hook_savex Hook_compute_m_norm ex_gen
      (snd (implicit_m_norm [1, 2, 3] ex_gen))" by blast
  from t2 gc have d3: "still_registered Hook_savex_io Hook_compute_flat_grad ex_convgen
      (snd (get_matrix ex_convgen))" by blast
  from t2 ic have d4: "still_registered Hook_savex Hook_compute_m_norm ex_convgen
      (snd (implicit_m_norm [1] ex_convgen))" by blast
  have r1: "handles (snd (get_matrix ex_gen)) = [0, 1]
      \<and> count_list (handles (snd (get_matrix ex_gen))) 0 = 1
      \<and> count_list (handles (snd (get_matrix ex_gen))) 1 = 1
      \<and> fwd_pre_hooks (snd (get_matrix ex_gen)) = [] \<and> bwd_hooks (snd (get_matrix ex_gen)) = []"
    using d1 fr by (simp add: deregistered_once_def Let_def a1 e)
  have r2: "handles (snd (implicit_m_norm [1, 2, 3] ex_gen)) = [0, 1]
      \<and> fwd_pre_hooks (snd (implicit_m_norm [1, 2, 3] ex_gen)) = []
      \<and> bwd_hooks (snd (implicit_m_norm [1, 2, 3] ex_gen)) = []"
    using d2 fr by (simp add: deregistered_once_def Let_def a2 e)
  have r3: "registered (snd (get_matrix ex_convgen)) 0 \<and> registered (snd (get_matrix ex_convgen)) 3"
    using d3 by (simp add: still_registered_def Let_def a3)
  have r4: "registered (snd (implicit_m_norm [1] ex_convgen)) 0
      \<and> registered (snd (implicit_m_norm [1] ex_convgen)) 3"
    using d4 by (simp add: still_registered_def Let_def a4)
  show ?thesis using fr g i gc ic r1 r2 r3 r4 by blast
qed

section \<open>The slices of the caller's vector\<close>

lemma m_norm_loop_slices:
  "m_norm_loop v bs i bl s = run_passes (zip (m_norm_slices v bs i bl) bl) s"
  by (induction bl arbitrary: i s) (auto split: prod.splits sum.splits)


lemma m_norm_slices_nth:
  "k < length bl \<Longrightarrow> m_norm_slices v bs i bl ! k = slice (i + k * bs) (i + k * bs + bs) v"
proof (induction bl arbitrary: i k)
  case Nil
  then show ?case by simp
next
  case (Cons b bl)
  show ?case
  proof (cases k)
    case 0
    then show ?thesis by simp
  next
    case (Suc j)
    then have "j < length bl" using Cons.prems by simp
    have "i + bs + j * bs = i + Suc j * bs" by simp
    with Cons.IH[OF \<open>j < length bl\<close>, of "i + bs"] Suc show ?thesis by simp
  qed
qed

lemma map_const_replicate: "\<forall>x \<in> set xs. f x = c \<Longrightarrow> map f xs = replicate (length xs) c"
  by (induction xs) auto

lemma full_prefix_offset:
  assumes "list_all (\<lambda>b. inputs_size b = bs) (butlast bl)" "k < length bl"
  shows "example_offset bl k = k * bs"
proof -
  have "take k bl = take k (butlast bl)" using assms(2) by (simp add: take_butlast)
  moreover have "\<forall>b \<in> set (take k (butlast bl)). inputs_size b = bs"
    using assms(1) by (auto simp: list_all_iff dest: in_set_takeD)
  ultimately have "map inputs_size (take k bl) = replicate (length (take k bl)) bs"
    using map_const_replicate[of "take k bl" inputs_size bs] by simp
  then show ?thesis using assms(2) by (simp add: example_offset_def sum_list_replicate)
qed


text \<open>
  Claim C10. For a loader as a \<^verbatim>\<open>DataLoader\<close> yields it and a vector with one entry per
  example, the slice \<^verbatim>\<open>v[i:i+bs]\<close> the loop takes for the \<open>k\<close>-th batch is the slice of
  \<open>v\<close> from the batch's first example to its last: it has as many entries as the batch has
  examples, the last slice being clipped by the end of \<open>v\<close>. The loop of the query is the
  sequence of passes with these slices.
\<close>

theorem m_norm_slices_exact:
  assumes wf: "wf_loader dl" and len: "length v = n_sampler dl" and k: "k < length (batches dl)"
  shows "m_norm_slices v (batch_size dl) 0 (batches dl) ! k =
           slice (example_offset (batches dl) k)
             (example_offset (batches dl) k + inputs_size (batches dl ! k)) v
       \<and> length (m_norm_slices v (batch_size dl) 0 (batches dl) ! k) = inputs_size (batches dl ! k)
       \<and> (\<forall>s. m_norm_loop v (batch_size dl) 0 (batches dl) s =
              run_passes (zip (m_norm_slices v (batch_size dl) 0 (batches dl)) (batches dl)) s)"
proof -
  let ?bl = "batches dl" and ?bs = "batch_size dl"
  have full: "list_all (\<lambda>b. inputs_size b = ?bs) (butlast ?bl)"
    and le: "inputs_size (?bl ! k) \<le> ?bs"
    and tot: "length v = sum_list (map inputs_size ?bl)"
    using wf len k by (auto simp: wf_loader_def list_all_iff)
  have off: "example_offset ?bl k = k * ?bs" using full_prefix_offset[OF full k] .
  have nth: "m_norm_slices v ?bs 0 ?bl ! k = slice (k * ?bs) (k * ?bs + ?bs) v"
    using m_norm_slices_nth[OF k, of v ?bs 0] by simp
  have room: "k * ?bs + inputs_size (?bl ! k) \<le> length v"
  proof -
    have "sum_list (map inputs_size ?bl) =
        sum_list (map inputs_size (take k ?bl @ ?bl ! k # drop (Suc k) ?bl))"
      using id_take_nth_drop[OF k] by simp
    also have "\<dots> = example_offset ?bl k + inputs_size (?bl ! k) +
        sum_list (map inputs_size (drop (Suc k) ?bl))"
      by (simp add: example_offset_def)
    finally show ?thesis using off tot by simp
  qed
  have same: "slice (k * ?bs) (k * ?bs + ?bs) v = slice (k * ?bs) (k * ?bs + inputs_size (?bl ! k)) v"
  proof (cases "Suc k < length ?bl")
    case True
    then have kb: "k < length (butlast ?bl)" by simp
    then have "butlast ?bl ! k \<in> set (butlast ?bl)" by (rule nth_mem)
    then have "?bl ! k \<in> set (butlast ?bl)" using kb by (simp add: nth_butlast)
    then have "inputs_size (?bl ! k) = ?bs" using full by (simp add: list_all_iff)
    then show ?thesis by simp
  next
    case False
    then have last: "Suc k = length ?bl" using k by simp
    then have d: "drop (Suc k) ?bl = []" by simp
    have "sum_list (map inputs_size ?bl) =
        sum_list (map inputs_size (take k ?bl @ ?bl ! k # drop (Suc k) ?bl))"
      using id_take_nth_drop[OF k] by simp
    also have "\<dots> = example_offset ?bl k + inputs_size (?bl ! k)"
      by (simp add: example_offset_def d)
    finally have "length v = k * ?bs + inputs_size (?bl ! k)" using off tot by simp
    then show ?thesis using le by (simp add: slice_def)
  qed
  have l: "length (slice (k * ?bs) (k * ?bs + inputs_size (?bl ! k)) v) = inputs_size (?bl ! k)"
    using room by (simp add: slice_def)
  show ?thesis using nth same off l m_norm_loop_slices by simp
qed

theorem m_norm_slices_exact_witness:
  "wf_loader ex_loader \<and> length [1, 2, 3 :: real] = n_sampler ex_loader
   \<and> 1 < length (batches ex_loader)
   \<and> m_norm_slices [1, 2, 3] (batch_size ex_loader) 0 (batches ex_loader) ! 1 = [3]
   \<and> m_norm_slices [1, 2, 3] (batch_size ex_loader) 0 (batches ex_loader) ! 0 = [1, 2]"
proof -
  have w: "wf_loader ex_loader" by code_simp
  have l: "length [1, 2, 3 :: real] = n_sampler ex_loader" by code_simp
  have k1: "1 < length (batches ex_loader)" by code_simp
  have k0: "0 < length (batches ex_loader)" by code_simp
  have r1: "slice (example_offset (batches ex_loader) 1)
      (example_offset (batches ex_loader) 1 + inputs_size (batches ex_loader ! 1)) [1, 2, 3 :: real] = [3]"
    by code_simp
  have r0: "slice (example_offset (batches ex_loader) 0)
      (example_offset (batches ex_loader) 0 + inputs_size (batches ex_loader ! 0)) [1, 2, 3 :: real] = [1, 2]"
    by code_simp
  from m_norm_slices_exact[OF w l k1] r1
  have a: "m_norm_slices [1, 2, 3] (batch_size ex_loader) 0 (batches ex_loader) ! 1 = [3]" by simp
  from m_norm_slices_exact[OF w l k0] r0
  have b: "m_norm_slices [1, 2, 3] (batch_size ex_loader) 0 (batches ex_loader) ! 0 = [1, 2]" by simp
  show ?thesis using w l k1 a b by blast
qed


section \<open>Tensor operations on well-shaped operands\<close>












section \<open>Which hooks a pass calls\<close>
















section \<open>The generator that construction returns\<close>








section \<open>\<^verbatim>\<open>implicit_m_norm\<close> on linear layers\<close>




section \<open>\<^verbatim>\<open>implicit_m_norm\<close> on a constructed generator of linear layers\<close>









section \<open>The result of \<^verbatim>\<open>implicit_m_norm\<close>\<close>




end
